theory Spec2Isabelle
  imports Complex_Main "HOL-Library.AList"
begin

section \<open>The restream supervisor of \<^verbatim>\<open>restream_app.py\<close>\<close>

text \<open>
  The program watches a Kick channel and, while the channel is live, keeps one ffmpeg
  child process pushing the feed to YouTube. Its control logic is the function
  \<^verbatim>\<open>stream_loop\<close>, the helpers it calls and the two commands \<^verbatim>\<open>API.start\<close> and
  \<^verbatim>\<open>API.stop\<close>. The embedding keeps the module's global dictionary \<^verbatim>\<open>state\<close>,
  the dictionary \<^verbatim>\<open>procs\<close> and the loop's local variable in one record, passed
  explicitly. Everything the code reads from outside (the clock, the prober, the process
  launcher, the window of the user interface) is an input of the iteration that reads it;
  everything it does to the outside is appended to a trace of effects.

  Clock readings (\<^verbatim>\<open>time.time()\<close>) are real numbers: the rounding of floating point is
  not modelled. Strings are byte strings.
\<close>

subsection \<open>Constants\<close>

definition OFFLINE_CHECK :: nat where "OFFLINE_CHECK = 30"
definition LIVE_CHECK :: nat where "LIVE_CHECK = 10"
definition FFMPEG_RESTART_DELAY :: nat where "FFMPEG_RESTART_DELAY = 3"
definition MAX_RESTARTS :: nat where "MAX_RESTARTS = 3"
definition CRASH_WINDOW :: real where "CRASH_WINDOW = 600"
definition MIN_STREAM_DURATION :: real where "MIN_STREAM_DURATION = 120"
definition URL_REFRESH_INTERVAL :: int where "URL_REFRESH_INTERVAL = 540"
definition YT_RTMP :: string where "YT_RTMP = ''rtmp://a.rtmp.youtube.com/live2/''"

text \<open>The dash of the log messages (U+2014), as its three UTF-8 bytes.\<close>

definition emdash :: string where
  "emdash = [CHR 0xE2, CHR 0x80, CHR 0x94]"

subsection \<open>Data\<close>

record config_rec =
  kick_url :: string
  yt_key :: string

record log_entry =
  le_time :: string
  le_msg :: string
  le_level :: string

text \<open>
  What the program does to its surroundings. A process handle is the number of the
  \<^verbatim>\<open>Popen\<close> object (the first launch creates handle 0); \<open>EvalJs\<close> carries the script
  and whether \<^verbatim>\<open>evaluate_js\<close> raised.
\<close>

datatype effect =
    Sleep nat
  | Print string
  | EvalJs string bool
  | RunProbe string
  | Spawn "string list" nat
  | SpawnFail "string list"
  | Terminate nat
  | Kill nat

datatype probe_outcome = Completed int string | RunRaised string

datatype launch_outcome = Started nat | FileNotFound | OtherFailure

datatype launch_result = Returned bool | Propagated

datatype control = Continue | Return | Crash

datatype loop_status = Exited | Crashed | Pending

text \<open>
  The surroundings, as one iteration of the loop (or one command) meets them:
  \<^item> \<open>stamp\<close>: the text \<^verbatim>\<open>time.strftime("%H:%M:%S")\<close> returns;
  \<^item> \<open>window\<close>: \<open>None\<close> while the global \<^verbatim>\<open>window\<close> is \<^verbatim>\<open>None\<close>, otherwise the
    predicate telling on which scripts \<^verbatim>\<open>evaluate_js\<close> raises;
  \<^item> \<open>exited\<close>: the handles of the child processes that ended on their own since the
    previous iteration;
  \<^item> \<open>now1\<close>, \<open>now2\<close>: the first and the second reading of \<^verbatim>\<open>time.time()\<close>;
  \<^item> \<open>probe\<close>: what \<^verbatim>\<open>subprocess.run\<close> of streamlink does (return code and standard
    output, or the text of the exception it raises, a timeout included);
  \<^item> \<open>launch\<close>: what \<^verbatim>\<open>subprocess.Popen\<close> does (the pid of the new process,
    \<^verbatim>\<open>FileNotFoundError\<close>, or any other exception);
  \<^item> \<open>wait_expires\<close>: on which handles \<^verbatim>\<open>proc.wait(timeout=10)\<close> raises
    \<^verbatim>\<open>TimeoutExpired\<close> after \<^verbatim>\<open>terminate()\<close>.
\<close>

record env =
  stamp :: string
  window :: "(string \<Rightarrow> bool) option"
  exited :: "nat list"
  now1 :: real
  now2 :: real
  probe :: probe_outcome
  launch :: launch_outcome
  wait_expires :: "nat \<Rightarrow> bool"

text \<open>
  The fields \<open>running\<close> to \<open>config\<close> are the dictionary \<^verbatim>\<open>state\<close>; \<open>procs\<close> is the
  dictionary \<^verbatim>\<open>procs\<close> (name to handle, in insertion order); \<open>stream_start_time\<close>
  is the local variable of \<^verbatim>\<open>stream_loop\<close>. The last three fields are the
  surroundings: the handles of the child processes that are alive, the number of the next
  handle, and the trace of effects so far.
\<close>

record sys =
  running :: bool
  is_live :: bool
  start_time :: "real option"
  restarts :: int
  crash_times :: "real list"
  logs :: "log_entry list"
  config :: config_rec
  procs :: "(string \<times> nat) list"
  stream_start_time :: "real option"
  alive :: "nat set"
  next_proc :: nat
  effects :: "effect list"

text \<open>The module's initial \<^verbatim>\<open>state\<close> and \<^verbatim>\<open>procs\<close>, for a loaded configuration.\<close>

definition initial :: "config_rec \<Rightarrow> sys" where
  "initial cfg =
     \<lparr>running = False, is_live = False, start_time = None, restarts = 0,
      crash_times = [], logs = [], config = cfg, procs = [],
      stream_start_time = None, alive = {}, next_proc = 0, effects = []\<rparr>"

subsection \<open>Python's conversions\<close>

text \<open>\<^verbatim>\<open>int(x)\<close> of a float truncates towards zero.\<close>

definition py_int :: "real \<Rightarrow> int" where
  "py_int x = (if 0 \<le> x then \<lfloor>x\<rfloor> else \<lceil>x\<rceil>)"

text \<open>
  Truth values: a string is true unless it is \<^verbatim>\<open>None\<close> or empty. (A float is true unless
  it is \<^verbatim>\<open>None\<close> or zero; the two tests of this kind are written out where they occur.)
\<close>

fun truthy_str :: "string option \<Rightarrow> bool" where
  "truthy_str None = False"
| "truthy_str (Some u) = (u \<noteq> [])"

definition digit_char :: "nat \<Rightarrow> char" where
  "digit_char d = char_of (48 + d)"

function str_nat :: "nat \<Rightarrow> string" where
  "str_nat n = (if n < 10 then [digit_char n] else str_nat (n div 10) @ [digit_char (n mod 10)])"
  by pat_completeness auto
termination
  by (relation "measure id") auto

declare str_nat.simps [simp del]

definition str_int :: "int \<Rightarrow> string" where
  "str_int i = (if i < 0 then CHR ''-'' # str_nat (nat (- i)) else str_nat (nat i))"

text \<open>\<^verbatim>\<open>s.replace(c, "\\" + c)\<close> for a one-character \<open>c\<close>.\<close>

definition escape_char :: "char \<Rightarrow> string \<Rightarrow> string" where
  "escape_char c s = concat (map (\<lambda>x. if x = c then [CHR 0x5C, c] else [x]) s)"

text \<open>\<^verbatim>\<open>str.strip()\<close>: the ASCII whitespace characters are removed at both ends.\<close>

definition is_space :: "char \<Rightarrow> bool" where
  "is_space c = (of_char c \<in> {9, 10, 11, 12, 13, 28, 29, 30, 31, 32 :: nat})"

definition strip :: "string \<Rightarrow> string" where
  "strip s = rev (dropWhile is_space (rev (dropWhile is_space s)))"

definition startswith :: "string \<Rightarrow> string \<Rightarrow> bool" where
  "startswith s p = (take (length p) s = p)"

subsection \<open>The log\<close>

text \<open>
  A script is handed to the window, when there is one; an exception of
  \<^verbatim>\<open>evaluate_js\<close> is swallowed (\<^verbatim>\<open>except: pass\<close>), so all that remains of the call
  is its entry in the trace.
\<close>

definition notify_window :: "env \<Rightarrow> string \<Rightarrow> effect list" where
  "notify_window e script =
     (case window e of
        None \<Rightarrow> []
      | Some raises \<Rightarrow> [EvalJs script (raises script)])"

text \<open>
  \<^verbatim>\<open>log\<close> appends the entry, drops the oldest entry when the buffer has more than 200,
  prints the line and notifies the window. \<open>log_msg\<close> is the state a call leaves when
  \<^verbatim>\<open>print\<close> returns; the loop and the commands are modelled with it. \<open>log_call\<close> below
  is the call with both outcomes of \<^verbatim>\<open>print\<close>.
\<close>

definition log_msg :: "env \<Rightarrow> string \<Rightarrow> string \<Rightarrow> sys \<Rightarrow> sys" where
  "log_msg e m lvl s =
     (let appended = logs s @ [\<lparr>le_time = stamp e, le_msg = m, le_level = lvl\<rparr>];
          kept = (if length appended > 200 then tl appended else appended);
          safe = escape_char (CHR 0x60) (escape_char (CHR 0x27) m);
          script = ''addLog('' @ [CHR 0x27] @ stamp e @ [CHR 0x27] @ '', '' @ [CHR 0x27] @ safe
                     @ [CHR 0x27] @ '', '' @ [CHR 0x27] @ lvl @ [CHR 0x27] @ '')''
      in s\<lparr>logs := kept,
            effects := effects s @ Print (stamp e @ ''  '' @ m) # notify_window e script\<rparr>)"

text \<open>
  \<^verbatim>\<open>print\<close> (line 48) stands after the update of the buffer and before the
  \<^verbatim>\<open>try\<close> of line 50, so nothing catches what it raises (\<^verbatim>\<open>ValueError\<close> on a
  closed standard output, \<^verbatim>\<open>UnicodeEncodeError\<close> when the encoding of the standard
  output lacks a character of the message): the exception leaves \<^verbatim>\<open>log\<close> with the
  entry appended and the window not notified. \<open>print_raises\<close> tells whether it does.
\<close>

datatype log_outcome = LogReturns sys | LogRaises sys

definition log_call :: "bool \<Rightarrow> env \<Rightarrow> string \<Rightarrow> string \<Rightarrow> sys \<Rightarrow> log_outcome" where
  "log_call print_raises e m lvl s =
     (let appended = logs s @ [\<lparr>le_time = stamp e, le_msg = m, le_level = lvl\<rparr>];
          kept = (if length appended > 200 then tl appended else appended);
          safe = escape_char (CHR 0x60) (escape_char (CHR 0x27) m);
          script = ''addLog('' @ [CHR 0x27] @ stamp e @ [CHR 0x27] @ '', '' @ [CHR 0x27] @ safe
                     @ [CHR 0x27] @ '', '' @ [CHR 0x27] @ lvl @ [CHR 0x27] @ '')''
      in if print_raises then LogRaises (s\<lparr>logs := kept\<rparr>)
         else LogReturns
                (s\<lparr>logs := kept,
                   effects := effects s @ Print (stamp e @ ''  '' @ m) # notify_window e script\<rparr>))"

definition update_ui_status :: "env \<Rightarrow> sys \<Rightarrow> sys" where
  "update_ui_status e s =
     s\<lparr>effects := effects s @
          notify_window e
            (''updateStatus('' @ (if is_live s then ''true'' else ''false'') @ '', ''
               @ str_int (restarts s) @ '')'')\<rparr>"

subsection \<open>Probing and the relay process\<close>

definition get_hls_url :: "env \<Rightarrow> sys \<Rightarrow> string option \<times> sys" where
  "get_hls_url e s =
     (let s1 = s\<lparr>effects := effects s @ [RunProbe (kick_url (config s))]\<rparr>
      in case probe e of
           Completed rc out \<Rightarrow>
             (let url = strip out
              in if rc = 0 \<and> startswith url ''http'' then (Some url, s1) else (None, s1))
         | RunRaised txt \<Rightarrow> (None, log_msg e (''Streamlink error: '' @ txt) ''yellow'' s1))"

definition build_cmd :: "string \<Rightarrow> string \<Rightarrow> string list" where
  "build_cmd hls_url key =
     [''ffmpeg'', ''-hide_banner'', ''-loglevel'', ''warning'',
      ''-re'', ''-i'', hls_url,
      ''-c:v'', ''h264_amf'',
      ''-b:v'', ''6000k'', ''-minrate'', ''6000k'', ''-maxrate'', ''6000k'', ''-bufsize'', ''6000k'',
      ''-r'', ''30'', ''-g'', ''60'',
      ''-c:a'', ''aac'', ''-b:a'', ''192k'',
      ''-f'', ''flv'',
      YT_RTMP @ key]"

definition start_ffmpeg :: "env \<Rightarrow> string \<Rightarrow> sys \<Rightarrow> launch_result \<times> sys" where
  "start_ffmpeg e hls_url s =
     (let key = yt_key (config s)
      in if key = [] then
           (Returned False,
            (log_msg e (''No YouTube key set '' @ emdash @ '' open Settings first'') ''red'' s)
              \<lparr>running := False\<rparr>)
         else
           (case launch e of
              Started pid \<Rightarrow>
                (let h = next_proc s;
                     s1 = s\<lparr>procs := AList.update ''ffmpeg'' h (procs s),
                            alive := insert h (alive s),
                            next_proc := Suc h,
                            effects := effects s @ [Spawn (build_cmd hls_url key) h]\<rparr>
                 in (Returned True,
                     log_msg e (''FFmpeg started (PID '' @ str_nat pid @ '')'') ''green'' s1))
            | FileNotFound \<Rightarrow>
                (Returned False,
                 (log_msg e ''FFmpeg not found! Install it and add to PATH.'' ''red''
                    (s\<lparr>effects := effects s @ [SpawnFail (build_cmd hls_url key)]\<rparr>))
                   \<lparr>running := False\<rparr>)
            | OtherFailure \<Rightarrow>
                (Propagated, s\<lparr>effects := effects s @ [SpawnFail (build_cmd hls_url key)]\<rparr>)))"

text \<open>One round of the loop of \<^verbatim>\<open>stop_ffmpeg\<close>, for the entry \<open>(key, proc)\<close>.\<close>

definition stop_proc :: "env \<Rightarrow> sys \<Rightarrow> string \<times> nat \<Rightarrow> sys" where
  "stop_proc e s kp =
     (let h = snd kp
      in if h \<in> alive s then
           s\<lparr>alive := alive s - {h},
             effects := effects s @ Terminate h # (if wait_expires e h then [Kill h] else [])\<rparr>
         else s)"

definition stop_ffmpeg :: "env \<Rightarrow> sys \<Rightarrow> sys" where
  "stop_ffmpeg e s = (foldl (stop_proc e) s (procs s))\<lparr>procs := []\<rparr>"

definition sleep :: "nat \<Rightarrow> sys \<Rightarrow> sys" where
  "sleep n s = s\<lparr>effects := effects s @ [Sleep n]\<rparr>"

text \<open>The child processes that ended on their own are no longer alive.\<close>

definition children_exit :: "env \<Rightarrow> sys \<Rightarrow> sys" where
  "children_exit e s = s\<lparr>alive := alive s - set (exited e)\<rparr>"

subsection \<open>One iteration of the loop of \<^verbatim>\<open>stream_loop\<close>\<close>

text \<open>
  The body of \<^verbatim>\<open>while state["running"]\<close> is split along its three cases: the relay
  is alive (lines 136 to 150), the relay is dead (lines 152 to 186), and no relay is
  tracked or the session is not live (lines 188 to 213). Each returns how the iteration
  ends: \<open>Continue\<close> (back to the loop's test), \<open>Return\<close> (the \<^verbatim>\<open>return\<close> of line 162)
  or \<open>Crash\<close> (an exception of \<^verbatim>\<open>Popen\<close> that \<^verbatim>\<open>start_ffmpeg\<close> does not catch
  ends the thread).
\<close>

definition refresh_url :: "env \<Rightarrow> sys \<Rightarrow> control \<times> sys" where
  "refresh_url e s =
     (let s1 = log_msg e ''Refreshing URL before expiry...'' ''yellow'' s
      in case get_hls_url e s1 of
           (fresh_url, s2) \<Rightarrow>
             (if truthy_str fresh_url then
                (case start_ffmpeg e (case fresh_url of Some u \<Rightarrow> u | None \<Rightarrow> [])
                        (sleep 2 (stop_ffmpeg e s2)) of
                   (Propagated, s3) \<Rightarrow> (Crash, s3)
                 | (Returned ok, s3) \<Rightarrow>
                     (Continue,
                      log_msg e (''URL refreshed '' @ emdash @ '' stream continuing'') ''green'' s3))
              else (Continue, s2)))"

definition relay_alive :: "env \<Rightarrow> sys \<Rightarrow> control \<times> sys" where
  "relay_alive e s =
     (let duration =
            (case start_time s of
               None \<Rightarrow> 0
             | Some t \<Rightarrow> if t \<noteq> 0 then py_int (now1 e - t) else 0);
          h = duration div 3600;
          m = (duration mod 3600) div 60;
          sec = duration mod 60
      in case (if duration > 0 \<and> duration mod URL_REFRESH_INTERVAL < int LIVE_CHECK
               then refresh_url e s else (Continue, s)) of
           (Crash, s1) \<Rightarrow> (Crash, s1)
         | (c, s1) \<Rightarrow>
             (Continue,
              sleep LIVE_CHECK
                (log_msg e (''Streaming '' @ emdash @ '' '' @ str_int h @ ''h '' @ str_int m
                              @ ''m '' @ str_int sec @ ''s'') ''muted'' s1)))"

text \<open>Lines 153 and 154: the ledger of crashes is pruned to the window, then the new
  crash is appended.\<close>

definition record_crash :: "real \<Rightarrow> real list \<Rightarrow> real list" where
  "record_crash now ts = filter (\<lambda>t. now - t < CRASH_WINDOW) ts @ [now]"

definition relay_dead :: "env \<Rightarrow> sys \<Rightarrow> control \<times> sys" where
  "relay_dead e s =
     (let s1 = s\<lparr>crash_times := record_crash (now1 e) (crash_times s)\<rparr>
      in if length (crash_times s1) \<ge> MAX_RESTARTS then
           (Return,
            update_ui_status e
              ((stop_ffmpeg e
                  (log_msg e (''3 crashes in 10 min '' @ emdash @ '' stopping'') ''red'' s1))
                 \<lparr>is_live := False, running := False\<rparr>))
         else if (case stream_start_time s1 of
                    None \<Rightarrow> False
                  | Some t \<Rightarrow> t \<noteq> 0 \<and> now2 e - t < MIN_STREAM_DURATION) then
           (Continue,
            sleep OFFLINE_CHECK
              (update_ui_status e
                 ((stop_ffmpeg e
                     (log_msg e (''Stream under 2 min '' @ emdash @ '' skipping restart'')
                        ''yellow'' s1))
                    \<lparr>is_live := False\<rparr>)))
         else
           (let s2 = s1\<lparr>restarts := restarts s1 + 1\<rparr>;
                s3 = log_msg e (''FFmpeg crashed '' @ emdash @ '' getting fresh URL (''
                                  @ str_int (restarts s2) @ ''/'' @ str_nat MAX_RESTARTS @ '')'')
                       ''yellow'' s2
            in case get_hls_url e (sleep FFMPEG_RESTART_DELAY s3) of
                 (fresh_url, s4) \<Rightarrow>
                   (if truthy_str fresh_url then
                      (case start_ffmpeg e (case fresh_url of Some u \<Rightarrow> u | None \<Rightarrow> []) s4 of
                         (Propagated, s5) \<Rightarrow> (Crash, s5)
                       | (Returned ok, s5) \<Rightarrow>
                           (Continue, sleep LIVE_CHECK (update_ui_status e s5)))
                    else
                      (Continue,
                       sleep LIVE_CHECK
                         (update_ui_status e
                            ((stop_ffmpeg e (log_msg e ''Channel went offline'' ''yellow'' s4))
                               \<lparr>is_live := False\<rparr>))))))"

definition check_kick :: "env \<Rightarrow> sys \<Rightarrow> control \<times> sys" where
  "check_kick e s =
     (case get_hls_url e (log_msg e ''Checking if Kick is live...'' ''muted'' s) of
        (url, s1) \<Rightarrow>
          (if truthy_str url \<and> \<not> is_live s1 then
             (let s2 = (log_msg e (''Kick LIVE '' @ emdash @ '' starting restream now'')
                          ''green'' s1)
                         \<lparr>is_live := True, start_time := Some (now1 e),
                          stream_start_time := Some (now2 e), restarts := 0,
                          crash_times := []\<rparr>
              in case start_ffmpeg e (case url of Some u \<Rightarrow> u | None \<Rightarrow> []) s2 of
                   (Propagated, s3) \<Rightarrow> (Crash, s3)
                 | (Returned ok, s3) \<Rightarrow> (Continue, sleep LIVE_CHECK (update_ui_status e s3)))
           else if \<not> truthy_str url \<and> is_live s1 then
             (Continue,
              sleep OFFLINE_CHECK
                (update_ui_status e
                   ((stop_ffmpeg e
                       (log_msg e (''Kick ended '' @ emdash @ '' stopping restream'') ''green'' s1))
                      \<lparr>is_live := False, start_time := None, stream_start_time := None\<rparr>)))
           else
             (Continue,
              sleep OFFLINE_CHECK
                (log_msg e (''Kick offline '' @ emdash @ '' checking in '' @ str_nat OFFLINE_CHECK
                              @ ''s'') ''muted'' s1))))"

definition tick :: "env \<Rightarrow> sys \<Rightarrow> control \<times> sys" where
  "tick e s =
     (let s0 = children_exit e s
      in case (if is_live s0 then map_of (procs s0) ''ffmpeg'' else None) of
           Some proc \<Rightarrow> if proc \<in> alive s0 then relay_alive e s0 else relay_dead e s0
         | None \<Rightarrow> check_kick e s0)"

subsection \<open>The loop and the commands\<close>

text \<open>
  The loop runs until \<^verbatim>\<open>state["running"]\<close> is false, which may be never: it is given
  the surroundings of its iterations as a list, and answers \<open>Pending\<close> when the list is
  used up while the loop would go on, \<open>Exited\<close> when the function returned and \<open>Crashed\<close>
  when an exception ended it.
\<close>

fun while_running :: "env list \<Rightarrow> sys \<Rightarrow> loop_status \<times> sys" where
  "while_running [] s = (if running s then (Pending, s) else (Exited, s))"
| "while_running (e # es) s =
     (if running s then
        (case tick e s of
           (Continue, s1) \<Rightarrow> while_running es s1
         | (Return, s1) \<Rightarrow> (Exited, s1)
         | (Crash, s1) \<Rightarrow> (Crashed, s1))
      else (Exited, s))"

text \<open>\<^verbatim>\<open>stream_loop\<close>; \<open>e0\<close> is what the lines before the loop meet.\<close>

definition stream_loop :: "env \<Rightarrow> env list \<Rightarrow> sys \<Rightarrow> loop_status \<times> sys" where
  "stream_loop e0 es s =
     (let s1 = s\<lparr>stream_start_time := None\<rparr>
      in if kick_url (config s1) = [] then
           (Exited,
            (log_msg e0 (''No Kick URL set '' @ emdash @ '' open Settings first'') ''red'' s1)
              \<lparr>running := False\<rparr>)
         else while_running es s1)"

text \<open>
  \<^verbatim>\<open>API.start\<close> up to the start of the thread; the thread then runs \<open>stream_loop\<close>.
\<close>

definition api_start :: "sys \<Rightarrow> string \<times> sys" where
  "api_start s =
     (if \<not> running s then
        (''started'', s\<lparr>running := True, restarts := 0, crash_times := []\<rparr>)
      else (''already running'', s))"


subsection \<open>Derived notions\<close>

text \<open>
  The notions below are not functions of the program: they name parts of its results
  (what a call appends to the log or to the trace), observations of the trace, the tests
  that select a case of the loop body, and the inputs of the examples.
\<close>

definition log_append :: "env \<Rightarrow> string \<Rightarrow> string \<Rightarrow> log_entry list \<Rightarrow> log_entry list" where
  "log_append e m lvl lg =
     (if length lg \<ge> 200 then tl (lg @ [\<lparr>le_time = stamp e, le_msg = m, le_level = lvl\<rparr>])
      else lg @ [\<lparr>le_time = stamp e, le_msg = m, le_level = lvl\<rparr>])"

definition log_notify :: "env \<Rightarrow> string \<Rightarrow> string \<Rightarrow> effect list" where
  "log_notify e m lvl =
     Print (stamp e @ ''  '' @ m) #
     notify_window e
       (''addLog('' @ [CHR 0x27] @ stamp e @ [CHR 0x27] @ '', '' @ [CHR 0x27]
          @ escape_char (CHR 0x60) (escape_char (CHR 0x27) m)
          @ [CHR 0x27] @ '', '' @ [CHR 0x27] @ lvl @ [CHR 0x27] @ '')'')"

definition status_notify :: "env \<Rightarrow> bool \<Rightarrow> int \<Rightarrow> effect list" where
  "status_notify e live n =
     notify_window e
       (''updateStatus('' @ (if live then ''true'' else ''false'') @ '', '' @ str_int n @ '')'')"

definition probe_logs :: "env \<Rightarrow> log_entry list \<Rightarrow> log_entry list" where
  "probe_logs e lg =
     (case probe e of
        Completed rc out \<Rightarrow> lg
      | RunRaised txt \<Rightarrow> log_append e (''Streamlink error: '' @ txt) ''yellow'' lg)"

definition probe_trace :: "env \<Rightarrow> string \<Rightarrow> effect list" where
  "probe_trace e u =
     RunProbe u #
     (case probe e of
        Completed rc out \<Rightarrow> []
      | RunRaised txt \<Rightarrow> log_notify e (''Streamlink error: '' @ txt) ''yellow'')"

definition hls_result :: "env \<Rightarrow> string option" where
  "hls_result e =
     (case probe e of
        Completed rc out \<Rightarrow>
          if rc = 0 \<and> startswith (strip out) ''http'' then Some (strip out) else None
      | RunRaised txt \<Rightarrow> None)"

primrec stop_trace :: "env \<Rightarrow> nat set \<Rightarrow> (string \<times> nat) list \<Rightarrow> effect list" where
  "stop_trace e al [] = []"
| "stop_trace e al (kp # ps) =
     (if snd kp \<in> al then Terminate (snd kp) # (if wait_expires e (snd kp) then [Kill (snd kp)] else [])
      else []) @ stop_trace e (al - {snd kp}) ps"

definition probes :: "effect list \<Rightarrow> string list" where
  "probes tr = concat (map (\<lambda>x. case x of RunProbe u \<Rightarrow> [u] | _ \<Rightarrow> []) tr)"

definition launch_cmds :: "effect list \<Rightarrow> string list list" where
  "launch_cmds tr = concat (map (\<lambda>x. case x of Spawn c h \<Rightarrow> [c] | SpawnFail c \<Rightarrow> [c] | _ \<Rightarrow> []) tr)"

definition sleeps :: "effect list \<Rightarrow> nat list" where
  "sleeps tr = concat (map (\<lambda>x. case x of Sleep n \<Rightarrow> [n] | _ \<Rightarrow> []) tr)"

definition signals :: "effect list \<Rightarrow> effect list" where
  "signals tr = filter (\<lambda>x. case x of Terminate h \<Rightarrow> True | Kill h \<Rightarrow> True | _ \<Rightarrow> False) tr"

text \<open>
  A state is sound when every relay process that is alive is the one tracked under
  \<^verbatim>\<open>procs["ffmpeg"]\<close>, and the live flag is set whenever one is alive.
\<close>

definition relay_inv :: "sys \<Rightarrow> bool" where
  "relay_inv s =
     ((\<forall>h \<in> alive s. map_of (procs s) ''ffmpeg'' = Some h) \<and> (alive s \<noteq> {} \<longrightarrow> is_live s))"

text \<open>
  The tests of the loop body: the test of line 132; the relay is tracked and found dead
  (line 135, after the exits of this iteration); the probe succeeds while the session is
  not live (line 191); the session is live, no relay is tracked and the probe fails (line
  202); the ledger is full after this crash (line 156); the session is younger than
  \<open>MIN_STREAM_DURATION\<close> (line 164).
\<close>

definition relay_tracked :: "sys \<Rightarrow> bool" where
  "relay_tracked s = (is_live s \<and> map_of (procs s) ''ffmpeg'' \<noteq> None)"

definition relay_died :: "env \<Rightarrow> sys \<Rightarrow> bool" where
  "relay_died e s =
     (is_live s \<and>
      (case map_of (procs s) ''ffmpeg'' of
         None \<Rightarrow> False
       | Some p \<Rightarrow> p \<notin> alive s - set (exited e)))"

definition new_session :: "env \<Rightarrow> sys \<Rightarrow> bool" where
  "new_session e s = (\<not> is_live s \<and> truthy_str (hls_result e))"

definition session_ended :: "env \<Rightarrow> sys \<Rightarrow> bool" where
  "session_ended e s = (is_live s \<and> map_of (procs s) ''ffmpeg'' = None \<and> \<not> truthy_str (hls_result e))"

definition crash_storm :: "env \<Rightarrow> sys \<Rightarrow> bool" where
  "crash_storm e s = (length (record_crash (now1 e) (crash_times s)) \<ge> MAX_RESTARTS)"

definition short_session :: "env \<Rightarrow> sys \<Rightarrow> bool" where
  "short_session e s =
     (case stream_start_time s of
        None \<Rightarrow> False
      | Some t \<Rightarrow> t \<noteq> 0 \<and> now2 e - t < MIN_STREAM_DURATION)"

text \<open>
  The inputs of the examples: a configuration with both settings, surroundings in which
  the probe finds the channel live and launches succeed, and a session that is live since
  \<open>t0\<close> with the relay \<open>h\<close>.
\<close>

definition demo_config :: config_rec where
  "demo_config = \<lparr>kick_url = ''https://kick.com/demo'', yt_key = ''abcd-1234''\<rparr>"

definition demo_env :: "real \<Rightarrow> env" where
  "demo_env t =
     \<lparr>stamp = ''12:00:00'', window = None, exited = [], now1 = t, now2 = t,
      probe = Completed 0 ''https://cdn.example/live.m3u8'', launch = Started 4242,
      wait_expires = (\<lambda>h. False)\<rparr>"

definition demo_live :: "real \<Rightarrow> nat \<Rightarrow> sys" where
  "demo_live t0 h =
     (initial demo_config)
       \<lparr>running := True, is_live := True, start_time := Some t0, stream_start_time := Some t0,
        procs := [(''ffmpeg'', h)], alive := {h}, next_proc := Suc h\<rparr>"

text \<open>The ledger after crashes at the given clock readings, from the empty ledger.\<close>

definition ledger :: "real list \<Rightarrow> real list" where
  "ledger ts = foldl (\<lambda>l t. record_crash t l) [] ts"

text \<open>
  More inputs of the examples: a session with two crashes in the ledger; the state
  \<^verbatim>\<open>API.start\<close> leaves from the initial one; surroundings in which the relay \<open>h\<close> has
  exited; three sessions whose relays die after 60 seconds each.
\<close>

definition demo_storm :: sys where
  "demo_storm = (demo_live 1000 2)\<lparr>restarts := 2, crash_times := [1200, 1400]\<rparr>"

definition demo_start :: sys where
  "demo_start = snd (api_start (initial demo_config))"

definition demo_dies :: "real \<Rightarrow> nat \<Rightarrow> env" where
  "demo_dies t h = (demo_env t)\<lparr>exited := [h]\<rparr>"

definition short_sessions :: "env list" where
  "short_sessions =
     [demo_env 1000, demo_dies 1060 0, demo_env 1090, demo_dies 1150 1, demo_env 1180,
      demo_dies 1240 2]"

text \<open>
  Summaries of the states of the examples: the loop runs, with no session and no relay
  (the next handle is \<open>n\<close>); the loop runs a session that began at \<open>t0\<close>, with the relay
  \<open>h\<close> alive and the ledger \<open>cts\<close>.
\<close>

definition idle_at :: "nat \<Rightarrow> sys \<Rightarrow> bool" where
  "idle_at n s =
     (running s \<and> \<not> is_live s \<and> procs s = [] \<and> alive s = {} \<and> config s = demo_config \<and>
      next_proc s = n)"

definition live_with :: "nat \<Rightarrow> real \<Rightarrow> real list \<Rightarrow> sys \<Rightarrow> bool" where
  "live_with h t0 cts s =
     (running s \<and> is_live s \<and> procs s = [(''ffmpeg'', h)] \<and> alive s = {h} \<and>
      config s = demo_config \<and> next_proc s = Suc h \<and> stream_start_time s = Some t0 \<and>
      crash_times s = cts)"

text \<open>
  Surroundings in which the relay binary is missing; a state with an empty key and one
  with both settings, each with the counter of restarts at 2 and no session.
\<close>

definition demo_missing :: "real \<Rightarrow> env" where
  "demo_missing t = (demo_env t)\<lparr>launch := FileNotFound\<rparr>"

definition demo_nokey :: sys where
  "demo_nokey =
     (initial \<lparr>kick_url = ''https://kick.com/demo'', yt_key = []\<rparr>)\<lparr>running := True, restarts := 2\<rparr>"

definition demo_idle :: sys where
  "demo_idle = (initial demo_config)\<lparr>running := True, restarts := 2\<rparr>"

text \<open>
  What a run of the loop records. \<open>recorded es s acc\<close> is the list of the clock readings
  of the failures recorded since the ledger was last emptied: an iteration that begins a
  session empties the list, an iteration that finds the relay dead appends its first clock
  reading (\<open>acc\<close> holds the readings from before the run). \<open>failures es s\<close> is the list of
  all the failures of the run, whether the ledger was emptied after them or not. Both
  follow the loop: they stop where it stops.
\<close>

fun recorded :: "env list \<Rightarrow> sys \<Rightarrow> real list \<Rightarrow> real list" where
  "recorded [] s acc = acc"
| "recorded (e # es) s acc =
     (if running s then
        (let acc1 = (if new_session e s then []
                     else if relay_died e s then acc @ [now1 e] else acc)
         in case tick e s of
              (Continue, s1) \<Rightarrow> recorded es s1 acc1
            | (Return, s1) \<Rightarrow> acc1
            | (Crash, s1) \<Rightarrow> acc1)
      else acc)"

fun failures :: "env list \<Rightarrow> sys \<Rightarrow> real list" where
  "failures [] s = []"
| "failures (e # es) s =
     (if running s then
        (if relay_died e s then [now1 e] else []) @
        (case tick e s of
           (Continue, s1) \<Rightarrow> failures es s1
         | (Return, s1) \<Rightarrow> []
         | (Crash, s1) \<Rightarrow> [])
      else [])"

text \<open>
  A session that begins at 10 and whose relay dies at 200, at 900 and, the clock having
  been set back, at 300.
\<close>

definition clock_set_back :: "env list" where
  "clock_set_back = [demo_env 10, demo_dies 200 0, demo_dies 900 1, demo_dies 300 2]"

section \<open>Properties\<close>

subsection \<open>What each function changes\<close>

lemma obs_append [simp]:
  "probes (a @ b) = probes a @ probes b"
  "launch_cmds (a @ b) = launch_cmds a @ launch_cmds b"
  "sleeps (a @ b) = sleeps a @ sleeps b"
  "signals (a @ b) = signals a @ signals b"
  by (simp_all add: probes_def launch_cmds_def sleeps_def signals_def)

lemma obs_Nil [simp]:
  "probes [] = []" "launch_cmds [] = []" "sleeps [] = []" "signals [] = []"
  by (simp_all add: probes_def launch_cmds_def sleeps_def signals_def)

lemma obs_Cons [simp]:
  "probes (x # tr) = (case x of RunProbe u \<Rightarrow> [u] | _ \<Rightarrow> []) @ probes tr"
  "launch_cmds (x # tr) = (case x of Spawn c h \<Rightarrow> [c] | SpawnFail c \<Rightarrow> [c] | _ \<Rightarrow> []) @ launch_cmds tr"
  "sleeps (x # tr) = (case x of Sleep n \<Rightarrow> [n] | _ \<Rightarrow> []) @ sleeps tr"
  "signals (x # tr) = (case x of Terminate h \<Rightarrow> [x] | Kill h \<Rightarrow> [x] | _ \<Rightarrow> []) @ signals tr"
  by (simp_all add: probes_def launch_cmds_def sleeps_def signals_def split: effect.split)

lemma notify_window_obs [simp]:
  "probes (notify_window e x) = []"
  "launch_cmds (notify_window e x) = []"
  "sleeps (notify_window e x) = []"
  "signals (notify_window e x) = []"
  by (cases "window e"; simp add: notify_window_def)+

lemma log_msg_shape:
  "log_msg e m lvl s = s\<lparr>logs := log_append e m lvl (logs s), effects := effects s @ log_notify e m lvl\<rparr>"
  by (simp add: log_msg_def log_append_def log_notify_def Let_def)

lemma log_notify_obs [simp]:
  "probes (log_notify e m lvl) = []"
  "launch_cmds (log_notify e m lvl) = []"
  "sleeps (log_notify e m lvl) = []"
  "signals (log_notify e m lvl) = []"
  by (simp_all add: log_notify_def)

lemma update_ui_status_shape:
  "update_ui_status e s = s\<lparr>effects := effects s @ status_notify e (is_live s) (restarts s)\<rparr>"
  by (simp add: update_ui_status_def status_notify_def)

lemma status_notify_obs [simp]:
  "probes (status_notify e b n) = []"
  "launch_cmds (status_notify e b n) = []"
  "sleeps (status_notify e b n) = []"
  "signals (status_notify e b n) = []"
  by (simp_all add: status_notify_def)

lemma get_hls_url_shape:
  "get_hls_url e s =
     (hls_result e,
      s\<lparr>logs := probe_logs e (logs s), effects := effects s @ probe_trace e (kick_url (config s))\<rparr>)"
  by (cases "probe e")
     (simp_all add: get_hls_url_def hls_result_def probe_logs_def probe_trace_def Let_def
        log_msg_shape)

lemma probe_trace_obs [simp]:
  "probes (probe_trace e u) = [u]"
  "launch_cmds (probe_trace e u) = []"
  "sleeps (probe_trace e u) = []"
  "signals (probe_trace e u) = []"
  by (cases "probe e"; simp add: probe_trace_def)+

lemma foldl_stop_proc:
  "foldl (stop_proc e) s ps =
     s\<lparr>alive := alive s - snd ` set ps, effects := effects s @ stop_trace e (alive s) ps\<rparr>"
proof (induction ps arbitrary: s)
  case Nil
  show ?case by simp
next
  case (Cons kp ps)
  show ?case
  proof (cases "snd kp \<in> alive s")
    case True
    have step: "stop_proc e s kp =
        s\<lparr>alive := alive s - {snd kp},
          effects := effects s @ Terminate (snd kp) #
            (if wait_expires e (snd kp) then [Kill (snd kp)] else [])\<rparr>"
      using True by (simp add: stop_proc_def Let_def)
    have "alive s - {snd kp} - snd ` set ps = alive s - insert (snd kp) (snd ` set ps)"
      by blast
    with True show ?thesis
      by (simp add: Cons.IH step)
  next
    case False
    have step: "stop_proc e s kp = s"
      using False by (simp add: stop_proc_def Let_def)
    from False have "alive s - insert (snd kp) (snd ` set ps) = alive s - snd ` set ps"
      and "alive s - {snd kp} = alive s"
      by blast+
    with False show ?thesis
      by (simp add: Cons.IH step)
  qed
qed

lemma stop_ffmpeg_shape:
  "stop_ffmpeg e s =
     s\<lparr>procs := [], alive := alive s - snd ` set (procs s),
       effects := effects s @ stop_trace e (alive s) (procs s)\<rparr>"
  by (simp add: stop_ffmpeg_def foldl_stop_proc)

lemma stop_trace_obs [simp]:
  "probes (stop_trace e al ps) = []"
  "launch_cmds (stop_trace e al ps) = []"
  "sleeps (stop_trace e al ps) = []"
  "signals (stop_trace e al ps) = stop_trace e al ps"
  by (induction ps arbitrary: al; simp)+

lemmas shapes = log_msg_shape update_ui_status_shape get_hls_url_shape stop_ffmpeg_shape
  sleep_def children_exit_def

lemma start_ffmpeg_fst:
  "fst (start_ffmpeg e u s) =
     (if yt_key (config s) = [] then Returned False
      else case launch e of Started pid \<Rightarrow> Returned True | FileNotFound \<Rightarrow> Returned False
           | OtherFailure \<Rightarrow> Propagated)"
  by (simp add: start_ffmpeg_def Let_def split: launch_outcome.split)

lemma start_ffmpeg_same [simp]:
  "is_live (snd (start_ffmpeg e u s)) = is_live s"
  "start_time (snd (start_ffmpeg e u s)) = start_time s"
  "restarts (snd (start_ffmpeg e u s)) = restarts s"
  "crash_times (snd (start_ffmpeg e u s)) = crash_times s"
  "config (snd (start_ffmpeg e u s)) = config s"
  "stream_start_time (snd (start_ffmpeg e u s)) = stream_start_time s"
  by (simp_all add: start_ffmpeg_def Let_def log_msg_shape split: launch_outcome.split)

lemma start_ffmpeg_running:
  "running (snd (start_ffmpeg e u s)) =
     (running s \<and> yt_key (config s) \<noteq> [] \<and> launch e \<noteq> FileNotFound)"
  by (simp add: start_ffmpeg_def Let_def log_msg_shape split: launch_outcome.split)

lemma start_ffmpeg_spawned:
  "yt_key (config s) \<noteq> [] \<Longrightarrow> launch e = Started pid \<Longrightarrow>
     procs (snd (start_ffmpeg e u s)) = AList.update ''ffmpeg'' (next_proc s) (procs s) \<and>
     alive (snd (start_ffmpeg e u s)) = insert (next_proc s) (alive s) \<and>
     next_proc (snd (start_ffmpeg e u s)) = Suc (next_proc s)"
  by (simp add: start_ffmpeg_def Let_def log_msg_shape)

lemma start_ffmpeg_not_spawned:
  "yt_key (config s) = [] \<or> launch e = FileNotFound \<or> launch e = OtherFailure \<Longrightarrow>
     procs (snd (start_ffmpeg e u s)) = procs s \<and>
     alive (snd (start_ffmpeg e u s)) = alive s \<and>
     next_proc (snd (start_ffmpeg e u s)) = next_proc s"
  by (auto simp add: start_ffmpeg_def Let_def log_msg_shape split: launch_outcome.split)

lemma start_ffmpeg_obs:
  "probes (effects (snd (start_ffmpeg e u s))) = probes (effects s)"
  "sleeps (effects (snd (start_ffmpeg e u s))) = sleeps (effects s)"
  "signals (effects (snd (start_ffmpeg e u s))) = signals (effects s)"
  "launch_cmds (effects (snd (start_ffmpeg e u s))) =
     launch_cmds (effects s) @
     (if yt_key (config s) = [] then [] else [build_cmd u (yt_key (config s))])"
  by (simp_all add: start_ffmpeg_def Let_def log_msg_shape split: launch_outcome.split)

lemma refresh_url_same:
  "restarts (snd (refresh_url e s)) = restarts s"
  "start_time (snd (refresh_url e s)) = start_time s"
  "is_live (snd (refresh_url e s)) = is_live s"
  "crash_times (snd (refresh_url e s)) = crash_times s"
  "config (snd (refresh_url e s)) = config s"
  "stream_start_time (snd (refresh_url e s)) = stream_start_time s"
  by (simp_all add: refresh_url_def shapes Let_def case_prod_beta split: launch_result.split)

lemma relay_alive_same:
  "restarts (snd (relay_alive e s)) = restarts s"
  "start_time (snd (relay_alive e s)) = start_time s"
  "is_live (snd (relay_alive e s)) = is_live s"
  "crash_times (snd (relay_alive e s)) = crash_times s"
  "config (snd (relay_alive e s)) = config s"
  "stream_start_time (snd (relay_alive e s)) = stream_start_time s"
  by (simp_all add: relay_alive_def refresh_url_same shapes Let_def case_prod_beta split: control.split)

lemma relay_dead_same:
  "config (snd (relay_dead e s)) = config s"
  "start_time (snd (relay_dead e s)) = start_time s"
  "stream_start_time (snd (relay_dead e s)) = stream_start_time s"
  "crash_times (snd (relay_dead e s)) = record_crash (now1 e) (crash_times s)"
  by (simp_all add: relay_dead_def shapes Let_def case_prod_beta split: launch_result.split)

lemma relay_dead_restarts:
  "restarts (snd (relay_dead e s)) =
     (if crash_storm e s \<or> short_session e s then restarts s else restarts s + 1)"
  by (simp add: relay_dead_def crash_storm_def short_session_def shapes Let_def case_prod_beta
        split: launch_result.split)

lemma check_kick_same:
  "config (snd (check_kick e s)) = config s"
  by (simp_all add: check_kick_def shapes Let_def case_prod_beta split: launch_result.split)

lemma check_kick_fields:
  "restarts (snd (check_kick e s)) = (if new_session e s then 0 else restarts s)"
  "crash_times (snd (check_kick e s)) = (if new_session e s then [] else crash_times s)"
  "start_time (snd (check_kick e s)) =
     (if new_session e s then Some (now1 e)
      else if is_live s \<and> \<not> truthy_str (hls_result e) then None else start_time s)"
  "stream_start_time (snd (check_kick e s)) =
     (if new_session e s then Some (now2 e)
      else if is_live s \<and> \<not> truthy_str (hls_result e) then None else stream_start_time s)"
  "is_live (snd (check_kick e s)) = truthy_str (hls_result e)"
  by (auto simp add: check_kick_def new_session_def shapes Let_def case_prod_beta
        split: launch_result.split)

lemma tick_alive:
  "is_live s \<Longrightarrow> map_of (procs s) ''ffmpeg'' = Some p \<Longrightarrow> p \<in> alive s - set (exited e) \<Longrightarrow>
     tick e s = relay_alive e (children_exit e s)"
  by (simp add: tick_def children_exit_def Let_def)

lemma tick_dead:
  "relay_died e s \<Longrightarrow> tick e s = relay_dead e (children_exit e s)"
  by (auto simp add: tick_def relay_died_def children_exit_def Let_def split: option.splits)

lemma tick_check:
  "\<not> relay_tracked s \<Longrightarrow> tick e s = check_kick e (children_exit e s)"
  by (auto simp add: tick_def relay_tracked_def children_exit_def Let_def split: option.splits)

lemma tick_cases:
  obtains (alive) p where "is_live s" "map_of (procs s) ''ffmpeg'' = Some p"
      "p \<in> alive s - set (exited e)" "tick e s = relay_alive e (children_exit e s)"
      "relay_tracked s" "\<not> relay_died e s"
  | (dead) "relay_died e s" "relay_tracked s" "tick e s = relay_dead e (children_exit e s)"
  | (check) "\<not> relay_tracked s" "\<not> relay_died e s" "tick e s = check_kick e (children_exit e s)"
proof (cases "relay_tracked s")
  case False
  then have "\<not> relay_died e s"
    by (auto simp: relay_tracked_def relay_died_def split: option.splits)
  with False show ?thesis using check tick_check by blast
next
  case True
  then obtain p where p: "is_live s" "map_of (procs s) ''ffmpeg'' = Some p"
    by (auto simp: relay_tracked_def)
  show ?thesis
  proof (cases "p \<in> alive s - set (exited e)")
    case True
    with p \<open>relay_tracked s\<close> show ?thesis
      using alive [of p] tick_alive [of s p e] by (auto simp: relay_died_def)
  next
    case False
    with p have "relay_died e s" by (simp add: relay_died_def)
    with \<open>relay_tracked s\<close> show ?thesis using dead tick_dead by blast
  qed
qed

lemma children_exit_preds [simp]:
  "new_session e (children_exit e s) = new_session e s"
  "crash_storm e (children_exit e s) = crash_storm e s"
  "short_session e (children_exit e s) = short_session e s"
  "restarts (children_exit e s) = restarts s"
  "start_time (children_exit e s) = start_time s"
  "is_live (children_exit e s) = is_live s"
  "running (children_exit e s) = running s"
  "config (children_exit e s) = config s"
  "procs (children_exit e s) = procs s"
  "crash_times (children_exit e s) = crash_times s"
  "stream_start_time (children_exit e s) = stream_start_time s"
  "effects (children_exit e s) = effects s"
  "logs (children_exit e s) = logs s"
  "next_proc (children_exit e s) = next_proc s"
  "alive (children_exit e s) = alive s - set (exited e)"
  by (simp_all add: new_session_def crash_storm_def short_session_def children_exit_def)

lemma demo_hls [simp]: "hls_result (demo_env t) = Some ''https://cdn.example/live.m3u8''"
  by (simp add: hls_result_def demo_env_def strip_def startswith_def is_space_def)

lemma ledger_snoc: "ledger (ts @ [t]) = record_crash t (ledger ts)"
  by (simp add: ledger_def)

lemma ledger_sorted:
  "sorted (ts @ [now]) \<Longrightarrow> ledger (ts @ [now]) = filter (\<lambda>t. now - t < CRASH_WINDOW) (ts @ [now])"
proof (induction ts arbitrary: now rule: rev_induct)
  case Nil
  show ?case by (simp add: ledger_def record_crash_def CRASH_WINDOW_def)
next
  case (snoc t' ts)
  from snoc.prems have le: "t' \<le> now" and srt: "sorted (ts @ [t'])"
    by (auto simp: sorted_append)
  have "ledger ((ts @ [t']) @ [now]) = record_crash now (ledger (ts @ [t']))"
    by (rule ledger_snoc)
  also have "\<dots> = record_crash now (filter (\<lambda>t. t' - t < CRASH_WINDOW) (ts @ [t']))"
    by (simp add: snoc.IH [OF srt])
  also have "\<dots> = filter (\<lambda>t. now - t < CRASH_WINDOW \<and> t' - t < CRASH_WINDOW) (ts @ [t']) @ [now]"
    by (simp add: record_crash_def conj_commute)
  also have "filter (\<lambda>t. now - t < CRASH_WINDOW \<and> t' - t < CRASH_WINDOW) (ts @ [t'])
      = filter (\<lambda>t. now - t < CRASH_WINDOW) (ts @ [t'])"
    using le by (intro filter_cong) auto
  also have "\<dots> @ [now] = filter (\<lambda>t. now - t < CRASH_WINDOW) ((ts @ [t']) @ [now])"
    by (simp add: CRASH_WINDOW_def)
  finally show ?case .
qed

lemma log_append_length: "length lg \<le> 200 \<Longrightarrow> length (log_append e m lvl lg) \<le> 200"
  by (simp add: log_append_def)

lemma log_append_eq:
  "length lg \<le> 200 \<Longrightarrow>
     log_append e m lvl lg =
       (if length lg = 200 then tl lg else lg) @ [\<lparr>le_time = stamp e, le_msg = m, le_level = lvl\<rparr>]"
  by (cases lg) (auto simp add: log_append_def)

lemma relay_dead_storm:
  "crash_storm e s \<Longrightarrow>
     fst (relay_dead e s) = Return \<and>
     \<not> is_live (snd (relay_dead e s)) \<and>
     \<not> running (snd (relay_dead e s)) \<and>
     procs (snd (relay_dead e s)) = [] \<and>
     alive (snd (relay_dead e s)) = alive s - snd ` set (procs s) \<and>
     next_proc (snd (relay_dead e s)) = next_proc s \<and>
     probes (effects (snd (relay_dead e s))) = probes (effects s) \<and>
     launch_cmds (effects (snd (relay_dead e s))) = launch_cmds (effects s) \<and>
     sleeps (effects (snd (relay_dead e s))) = sleeps (effects s)"
  by (simp add: relay_dead_def crash_storm_def shapes Let_def)

lemma relay_dead_short:
  "\<not> crash_storm e s \<Longrightarrow> short_session e s \<Longrightarrow>
     fst (relay_dead e s) = Continue \<and>
     \<not> is_live (snd (relay_dead e s)) \<and>
     running (snd (relay_dead e s)) = running s \<and>
     procs (snd (relay_dead e s)) = [] \<and>
     alive (snd (relay_dead e s)) = alive s - snd ` set (procs s) \<and>
     next_proc (snd (relay_dead e s)) = next_proc s \<and>
     probes (effects (snd (relay_dead e s))) = probes (effects s) \<and>
     launch_cmds (effects (snd (relay_dead e s))) = launch_cmds (effects s) \<and>
     sleeps (effects (snd (relay_dead e s))) = sleeps (effects s) @ [OFFLINE_CHECK] \<and>
     last (effects (snd (relay_dead e s))) = Sleep OFFLINE_CHECK"
  by (simp add: relay_dead_def crash_storm_def short_session_def shapes Let_def)

lemma while_running_stopped: "\<not> running s \<Longrightarrow> while_running es s = (Exited, s)"
  by (cases es) simp_all

lemma demo_dies_hls [simp]: "hls_result (demo_dies t h) = Some ''https://cdn.example/live.m3u8''"
  by (simp add: hls_result_def demo_dies_def demo_env_def strip_def startswith_def is_space_def)

lemma demo_env_fields [simp]:
  "launch (demo_env t) = Started 4242" "now1 (demo_env t) = t" "now2 (demo_env t) = t"
  "exited (demo_env t) = []"
  "launch (demo_dies t h) = Started 4242" "now1 (demo_dies t h) = t" "now2 (demo_dies t h) = t"
  "exited (demo_dies t h) = [h]"
  by (simp_all add: demo_env_def demo_dies_def)

lemma demo_key [simp]: "yt_key demo_config \<noteq> []" "kick_url demo_config = ''https://kick.com/demo''"
  by (simp_all add: demo_config_def)

lemma idle_step:
  "idle_at n s \<Longrightarrow>
     fst (tick (demo_env t) s) = Continue \<and> live_with n t [] (snd (tick (demo_env t) s)) \<and>
     start_time (snd (tick (demo_env t) s)) = Some t \<and>
     probes (effects (snd (tick (demo_env t) s))) = probes (effects s) @ [''https://kick.com/demo'']"
  by (simp add: idle_at_def live_with_def tick_def check_kick_def shapes Let_def case_prod_beta
        start_ffmpeg_fst start_ffmpeg_running start_ffmpeg_spawned start_ffmpeg_obs)

lemma short_death_step:
  "live_with h t0 [] s \<Longrightarrow> t0 \<noteq> 0 \<Longrightarrow> t - t0 < 120 \<Longrightarrow>
     relay_died (demo_dies t h) s \<and>
     fst (tick (demo_dies t h) s) = Continue \<and> idle_at (Suc h) (snd (tick (demo_dies t h) s)) \<and>
     crash_times (snd (tick (demo_dies t h) s)) = [t] \<and>
     probes (effects (snd (tick (demo_dies t h) s))) = probes (effects s)"
  by (simp add: idle_at_def live_with_def relay_died_def tick_def relay_dead_def shapes Let_def
        record_crash_def MAX_RESTARTS_def MIN_STREAM_DURATION_def CRASH_WINDOW_def)

lemma while_running_step:
  "running s \<Longrightarrow> fst (tick e s) = Continue \<Longrightarrow>
     while_running (e # es) s = while_running es (snd (tick e s))"
  by (cases "tick e s") simp

lemma demo_start_idle: "idle_at 0 demo_start"
  by (simp add: idle_at_def demo_start_def api_start_def initial_def)

lemma while_running_append:
  "fst (while_running es s) = Pending \<Longrightarrow>
     while_running (es @ es') s = while_running es' (snd (while_running es s))"
proof (induction es arbitrary: s)
  case Nil
  then show ?case by simp
next
  case (Cons e es)
  then show ?case
    by (cases "tick e s") (auto split: if_splits control.splits)
qed

lemma while_running_single:
  "running s \<Longrightarrow> fst (tick e s) = Continue \<Longrightarrow> running (snd (tick e s)) \<Longrightarrow>
     while_running [e] s = (Pending, snd (tick e s))"
  by (cases "tick e s") simp

lemma while_running_snoc:
  "while_running es s = (Pending, s1) \<Longrightarrow> fst (tick e s1) = Continue \<Longrightarrow>
   running (snd (tick e s1)) \<Longrightarrow>
     while_running (es @ [e]) s = (Pending, snd (tick e s1))"
proof -
  assume a: "while_running es s = (Pending, s1)" and b: "fst (tick e s1) = Continue"
    and c: "running (snd (tick e s1))"
  from a have "running s1"
    by (induction es arbitrary: s) (auto split: if_splits control.splits prod.splits)
  then have "while_running [e] s1 = (Pending, snd (tick e s1))"
    using b c by (rule while_running_single)
  with a show ?thesis
    by (simp add: while_running_append del: while_running.simps)
qed

lemma demo_live_with: "live_with h t0 [] (demo_live t0 h)"
  by (simp add: live_with_def demo_live_def initial_def)

lemma demo_wait [simp]:
  "\<not> wait_expires (demo_env t) h" "\<not> wait_expires (demo_dies t k) h"
  by (simp_all add: demo_env_def demo_dies_def)

lemma crash_restart_step:
  "live_with h t0 cts s \<Longrightarrow> 120 \<le> t - t0 \<Longrightarrow>
   length (filter (\<lambda>x. t - x < 600) cts) < 2 \<Longrightarrow>
     relay_died (demo_dies t h) s \<and>
     fst (tick (demo_dies t h) s) = Continue \<and>
     live_with (Suc h) t0 (record_crash t cts) (snd (tick (demo_dies t h) s)) \<and>
     restarts (snd (tick (demo_dies t h) s)) = restarts s + 1 \<and>
     launch_cmds (effects (snd (tick (demo_dies t h) s))) =
       launch_cmds (effects s) @ [build_cmd ''https://cdn.example/live.m3u8'' (yt_key demo_config)]"
  by (simp add: live_with_def relay_died_def tick_def relay_dead_def shapes Let_def
        case_prod_beta start_ffmpeg_fst start_ffmpeg_running start_ffmpeg_spawned start_ffmpeg_obs
        record_crash_def MAX_RESTARTS_def MIN_STREAM_DURATION_def CRASH_WINDOW_def)

lemma refresh_step:
  "live_with h t0 cts s \<Longrightarrow> start_time s = Some t0 \<Longrightarrow> t0 \<noteq> 0 \<Longrightarrow>
   0 < py_int (t - t0) \<Longrightarrow> py_int (t - t0) mod 540 < 10 \<Longrightarrow>
     fst (tick (demo_env t) s) = Continue \<and>
     live_with (Suc h) t0 cts (snd (tick (demo_env t) s)) \<and>
     signals (effects (snd (tick (demo_env t) s))) =
       signals (effects s) @ [Terminate h] \<and>
     launch_cmds (effects (snd (tick (demo_env t) s))) =
       launch_cmds (effects s) @ [build_cmd ''https://cdn.example/live.m3u8'' (yt_key demo_config)]"
  by (simp add: live_with_def tick_def relay_alive_def refresh_url_def shapes Let_def
        case_prod_beta start_ffmpeg_fst start_ffmpeg_running start_ffmpeg_spawned start_ffmpeg_obs
        URL_REFRESH_INTERVAL_def LIVE_CHECK_def)

lemma demo_missing_fields [simp]:
  "launch (demo_missing t) = FileNotFound" "now1 (demo_missing t) = t" "now2 (demo_missing t) = t"
  "exited (demo_missing t) = []"
  "hls_result (demo_missing t) = Some ''https://cdn.example/live.m3u8''"
  by (simp_all add: demo_missing_def demo_env_def hls_result_def strip_def startswith_def
        is_space_def)

lemma start_ffmpeg_next_proc:
  "next_proc (snd (start_ffmpeg e u s)) =
     (if yt_key (config s) \<noteq> [] \<and> launch e \<noteq> FileNotFound \<and> launch e \<noteq> OtherFailure
      then Suc (next_proc s) else next_proc s)"
  by (simp add: start_ffmpeg_def Let_def log_msg_shape split: launch_outcome.split)

lemma log_append_last:
  "last (log_append e m lvl lg) = \<lparr>le_time = stamp e, le_msg = m, le_level = lvl\<rparr>"
  by (cases lg) (simp_all add: log_append_def)

lemma start_ffmpeg_missing:
  "yt_key (config s) \<noteq> [] \<Longrightarrow> launch e = FileNotFound \<Longrightarrow>
     fst (start_ffmpeg e u s) = Returned False \<and>
     \<not> running (snd (start_ffmpeg e u s)) \<and>
     alive (snd (start_ffmpeg e u s)) = alive s \<and>
     procs (snd (start_ffmpeg e u s)) = procs s \<and>
     next_proc (snd (start_ffmpeg e u s)) = next_proc s \<and>
     last (logs (snd (start_ffmpeg e u s))) =
       \<lparr>le_time = stamp e, le_msg = ''FFmpeg not found! Install it and add to PATH.'',
        le_level = ''red''\<rparr>"
  by (simp add: start_ffmpeg_def Let_def log_msg_shape log_append_last)

lemma refresh_url_missing:
  "yt_key (config s) \<noteq> [] \<Longrightarrow> launch e = FileNotFound \<Longrightarrow>
   launch_cmds (effects (snd (refresh_url e s))) \<noteq> launch_cmds (effects s) \<Longrightarrow>
     fst (refresh_url e s) = Continue \<and> \<not> running (snd (refresh_url e s))"
  by (simp add: refresh_url_def shapes Let_def case_prod_beta start_ffmpeg_fst
        start_ffmpeg_running start_ffmpeg_obs split: if_splits)

lemma refresh_url_next_proc:
  "launch e = FileNotFound \<Longrightarrow> next_proc (snd (refresh_url e s)) = next_proc s"
  by (simp add: refresh_url_def shapes Let_def case_prod_beta start_ffmpeg_fst
        start_ffmpeg_next_proc)

lemma relay_alive_missing:
  "yt_key (config s) \<noteq> [] \<Longrightarrow> launch e = FileNotFound \<Longrightarrow>
   launch_cmds (effects (snd (relay_alive e s))) \<noteq> launch_cmds (effects s) \<Longrightarrow>
     fst (relay_alive e s) = Continue \<and> \<not> running (snd (relay_alive e s)) \<and>
     next_proc (snd (relay_alive e s)) = next_proc s"
proof -
  assume k: "yt_key (config s) \<noteq> []" and l: "launch e = FileNotFound"
    and c: "launch_cmds (effects (snd (relay_alive e s))) \<noteq> launch_cmds (effects s)"
  have fst: "fst (relay_alive e s) = Continue"
    using refresh_url_missing [OF k l]
    by (auto simp add: relay_alive_def shapes Let_def case_prod_beta refresh_url_def
          start_ffmpeg_fst l k split: control.split)
  from c have "launch_cmds (effects (snd (refresh_url e s))) \<noteq> launch_cmds (effects s)"
    by (auto simp add: relay_alive_def shapes Let_def case_prod_beta split: control.splits if_splits)
  from refresh_url_missing [OF k l this] c have "\<not> running (snd (relay_alive e s))"
    by (auto simp add: relay_alive_def shapes Let_def case_prod_beta split: control.splits if_splits)
  moreover have "next_proc (snd (relay_alive e s)) = next_proc s"
    using refresh_url_next_proc [OF l, of s]
    by (auto simp add: relay_alive_def shapes Let_def case_prod_beta split: control.splits if_splits)
  ultimately show ?thesis using fst by simp
qed

lemma relay_dead_missing:
  "yt_key (config s) \<noteq> [] \<Longrightarrow> launch e = FileNotFound \<Longrightarrow>
   launch_cmds (effects (snd (relay_dead e s))) \<noteq> launch_cmds (effects s) \<Longrightarrow>
     fst (relay_dead e s) = Continue \<and> \<not> running (snd (relay_dead e s)) \<and>
     next_proc (snd (relay_dead e s)) = next_proc s"
  by (simp add: relay_dead_def shapes Let_def case_prod_beta start_ffmpeg_fst
        start_ffmpeg_running start_ffmpeg_obs start_ffmpeg_next_proc split: if_splits)

lemma check_kick_missing:
  "yt_key (config s) \<noteq> [] \<Longrightarrow> launch e = FileNotFound \<Longrightarrow>
   launch_cmds (effects (snd (check_kick e s))) \<noteq> launch_cmds (effects s) \<Longrightarrow>
     fst (check_kick e s) = Continue \<and> \<not> running (snd (check_kick e s)) \<and>
     next_proc (snd (check_kick e s)) = next_proc s"
  by (simp add: check_kick_def shapes Let_def case_prod_beta start_ffmpeg_fst
        start_ffmpeg_running start_ffmpeg_obs start_ffmpeg_next_proc split: if_splits)

lemma idle_missing_step:
  "idle_at n s \<Longrightarrow>
     fst (tick (demo_missing t) s) = Continue \<and>
     \<not> running (snd (tick (demo_missing t) s)) \<and>
     is_live (snd (tick (demo_missing t) s)) \<and>
     alive (snd (tick (demo_missing t) s)) = {} \<and>
     procs (snd (tick (demo_missing t) s)) = [] \<and>
     probes (effects (snd (tick (demo_missing t) s))) =
       probes (effects s) @ [''https://kick.com/demo''] \<and>
     launch_cmds (effects (snd (tick (demo_missing t) s))) =
       launch_cmds (effects s) @ [build_cmd ''https://cdn.example/live.m3u8'' (yt_key demo_config)]"
  by (simp add: idle_at_def tick_def check_kick_def shapes Let_def case_prod_beta
        start_ffmpeg_fst start_ffmpeg_running start_ffmpeg_not_spawned start_ffmpeg_obs)

lemma stream_loop_while:
  "kick_url (config s) \<noteq> [] \<Longrightarrow>
     stream_loop e0 es s = while_running es (s\<lparr>stream_start_time := None\<rparr>)"
  by (simp add: stream_loop_def Let_def)

lemma idle_at_local [simp]: "idle_at n (s\<lparr>stream_start_time := x\<rparr>) = idle_at n s"
  by (simp add: idle_at_def)

lemma demo_start_fields [simp]:
  "config demo_start = demo_config" "effects demo_start = []" "running demo_start"
  by (simp_all add: demo_start_def api_start_def initial_def)

text \<open>
  The buffer of the log: when it holds at most 200 entries before a call of \<^verbatim>\<open>log\<close>
  (it is empty at the start, and only \<^verbatim>\<open>log\<close> writes to it), it holds at most 200
  after a call that returns; the new entry is appended and, when the buffer was full, the
  oldest entry is dropped. Whatever the window does with the notification, the state
  after the call is the same.
\<close>

lemma log_bounded:
  "length (logs s) \<le> 200 \<Longrightarrow>
     length (logs (log_msg e m lvl s)) \<le> 200 \<and>
     logs (log_msg e m lvl s) =
       (if length (logs s) = 200 then tl (logs s) else logs s)
         @ [\<lparr>le_time = stamp e, le_msg = m, le_level = lvl\<rparr>] \<and>
     (log_msg e m lvl s)\<lparr>logs := logs s, effects := effects s\<rparr> = s \<and>
     (log_msg (e\<lparr>window := w\<rparr>) m lvl s)\<lparr>effects := effects s\<rparr>
       = s\<lparr>logs := logs (log_msg e m lvl s)\<rparr>"
  by (simp add: log_msg_shape log_append_length log_append_eq)

lemma log_bounded_example:
  "length (logs (log_msg (demo_env 0) ''x'' ''red''
      ((initial demo_config)\<lparr>logs := replicate 200 \<lparr>le_time = ''t'', le_msg = ''old'', le_level = ''green''\<rparr>\<rparr>))) \<le> 200 \<and>
   logs (log_msg (demo_env 0) ''x'' ''red''
      ((initial demo_config)\<lparr>logs := replicate 200 \<lparr>le_time = ''t'', le_msg = ''old'', le_level = ''green''\<rparr>\<rparr>))
    = replicate 199 \<lparr>le_time = ''t'', le_msg = ''old'', le_level = ''green''\<rparr>
        @ [\<lparr>le_time = ''12:00:00'', le_msg = ''x'', le_level = ''red''\<rparr>]"
proof -
  have "tl (replicate 200 x) = replicate 199 x" for x :: log_entry
    by (simp add: tl_replicate)
  with log_bounded [of "(initial demo_config)\<lparr>logs := replicate 200 \<lparr>le_time = ''t'', le_msg = ''old'', le_level = ''green''\<rparr>\<rparr>"
      "demo_env 0" "''x''" "''red''" None]
  show ?thesis
    by (simp add: demo_env_def)
qed



lemma check_kick_new_session:
  "new_session e s \<Longrightarrow>
     launch_cmds (effects (snd (check_kick e s))) =
       launch_cmds (effects s) @
         (if yt_key (config s) = [] then []
          else [build_cmd (case hls_result e of Some u \<Rightarrow> u | None \<Rightarrow> []) (yt_key (config s))]) \<and>
     next_proc (snd (check_kick e s)) =
       (if yt_key (config s) \<noteq> [] \<and> launch e \<noteq> FileNotFound \<and> launch e \<noteq> OtherFailure
        then Suc (next_proc s) else next_proc s) \<and>
     alive (snd (check_kick e s)) =
       (if yt_key (config s) \<noteq> [] \<and> launch e \<noteq> FileNotFound \<and> launch e \<noteq> OtherFailure
        then insert (next_proc s) (alive s) else alive s)"
  by (cases "launch e")
     (simp_all add: check_kick_def new_session_def shapes Let_def case_prod_beta
        start_ffmpeg_def)

lemma tick_crash_times:
  "crash_times (snd (tick e s)) =
     (if new_session e s then []
      else if relay_died e s then record_crash (now1 e) (crash_times s) else crash_times s)"
proof (cases e s rule: tick_cases)
  case (alive p)
  then show ?thesis
    by (simp add: relay_alive_same new_session_def)
next
  case dead
  then have "is_live s" by (simp add: relay_died_def)
  with dead show ?thesis
    by (simp add: relay_dead_same new_session_def)
next
  case check
  then show ?thesis
    by (simp add: check_kick_fields)
qed

lemma ledger_Nil [simp]: "ledger [] = []"
  by (simp add: ledger_def)

lemma run_ledger:
  "crash_times s = ledger acc \<Longrightarrow>
     crash_times (snd (while_running es s)) = ledger (recorded es s acc)"
proof (induction es arbitrary: s acc)
  case Nil
  then show ?case by simp
next
  case (Cons e es)
  show ?case
  proof (cases "running s")
    case False
    with Cons.prems show ?thesis by simp
  next
    case True
    define acc1 where "acc1 = (if new_session e s then []
        else if relay_died e s then acc @ [now1 e] else acc)"
    have step: "crash_times (snd (tick e s)) = ledger acc1"
      using Cons.prems by (simp add: tick_crash_times acc1_def ledger_snoc)
    obtain c s1 where t: "tick e s = (c, s1)"
      by (cases "tick e s")
    with step have s1: "crash_times s1 = ledger acc1"
      by simp
    show ?thesis
      using True t s1 Cons.IH [OF s1]
      by (cases c) (simp_all add: acc1_def Let_def)
  qed
qed

lemma record_crash_length: "length (record_crash now l) \<le> Suc (length l)"
  by (simp add: record_crash_def le_SucI)

lemma tick_ledger_bound:
  "length (crash_times s) < MAX_RESTARTS \<Longrightarrow>
     length (crash_times (snd (tick e s))) \<le> MAX_RESTARTS \<and>
     (fst (tick e s) = Continue \<longrightarrow> length (crash_times (snd (tick e s))) < MAX_RESTARTS)"
proof -
  assume b: "length (crash_times s) < MAX_RESTARTS"
  show ?thesis
  proof (cases "relay_died e s \<and> \<not> new_session e s")
    case False
    with b show ?thesis
      by (auto simp add: tick_crash_times MAX_RESTARTS_def)
  next
    case True
    then have ct: "crash_times (snd (tick e s)) = record_crash (now1 e) (crash_times s)"
      by (simp add: tick_crash_times)
    have le: "length (crash_times (snd (tick e s))) \<le> MAX_RESTARTS"
      using b record_crash_length [of "now1 e" "crash_times s"] by (simp add: ct)
    have "length (crash_times (snd (tick e s))) < MAX_RESTARTS" if c: "fst (tick e s) = Continue"
    proof (rule ccontr)
      assume "\<not> length (crash_times (snd (tick e s))) < MAX_RESTARTS"
      then have "crash_storm e (children_exit e s)"
        by (simp add: ct crash_storm_def)
      from relay_dead_storm [OF this] True c show False
        by (simp add: tick_dead)
    qed
    with le show ?thesis by simp
  qed
qed

lemma run_ledger_bound:
  "length (crash_times s) < MAX_RESTARTS \<Longrightarrow>
     length (crash_times (snd (while_running es s))) \<le> MAX_RESTARTS"
proof (induction es arbitrary: s)
  case Nil
  then show ?case by simp
next
  case (Cons e es)
  obtain c s1 where t: "tick e s = (c, s1)"
    by (cases "tick e s")
  from tick_ledger_bound [OF Cons.prems, of e] t
  have le: "length (crash_times s1) \<le> MAX_RESTARTS"
    and lt: "c = Continue \<Longrightarrow> length (crash_times s1) < MAX_RESTARTS"
    by simp_all
  show ?case
    using Cons.prems t le lt Cons.IH [of s1]
    by (cases c) (auto simp add: less_imp_le)
qed

lemma tick_entries:
  "set (crash_times (snd (tick e s))) \<subseteq> insert (now1 e) (set (crash_times s))"
  by (auto simp add: tick_crash_times record_crash_def)

lemma run_entries:
  "set (crash_times (snd (while_running es s))) \<subseteq> set (crash_times s) \<union> now1 ` set es"
proof (induction es arbitrary: s)
  case Nil
  then show ?case by simp
next
  case (Cons e es)
  obtain c s1 where t: "tick e s = (c, s1)"
    by (cases "tick e s")
  from tick_entries [of e s] t
  have s1: "set (crash_times s1) \<subseteq> insert (now1 e) (set (crash_times s))"
    by simp
  show ?case
    using t s1 Cons.IH [of s1]
    by (cases c) auto
qed

lemma step_new:
  "idle_at n s \<Longrightarrow>
     while_running (demo_env t # es) s = while_running es (snd (tick (demo_env t) s)) \<and>
     recorded (demo_env t # es) s acc = recorded es (snd (tick (demo_env t) s)) [] \<and>
     failures (demo_env t # es) s = failures es (snd (tick (demo_env t) s)) \<and>
     live_with n t [] (snd (tick (demo_env t) s))"
proof -
  assume i: "idle_at n s"
  then have r: "running s" and n: "new_session (demo_env t) s" and d: "\<not> relay_died (demo_env t) s"
    by (simp_all add: idle_at_def new_session_def relay_died_def)
  from idle_step [OF i, of t] have c: "fst (tick (demo_env t) s) = Continue"
    and l: "live_with n t [] (snd (tick (demo_env t) s))"
    by simp_all
  from r n d c l show ?thesis
    by (cases "tick (demo_env t) s") simp
qed

lemma step_short:
  "live_with h t0 [] s \<Longrightarrow> t0 \<noteq> 0 \<Longrightarrow> t - t0 < 120 \<Longrightarrow>
     while_running (demo_dies t h # es) s = while_running es (snd (tick (demo_dies t h) s)) \<and>
     recorded (demo_dies t h # es) s acc = recorded es (snd (tick (demo_dies t h) s)) (acc @ [t]) \<and>
     failures (demo_dies t h # es) s = t # failures es (snd (tick (demo_dies t h) s)) \<and>
     idle_at (Suc h) (snd (tick (demo_dies t h) s)) \<and>
     crash_times (snd (tick (demo_dies t h) s)) = [t]"
proof -
  assume l: "live_with h t0 [] s" and t: "t0 \<noteq> 0" "t - t0 < 120"
  from l have r: "running s" and n: "\<not> new_session (demo_dies t h) s"
    by (simp_all add: live_with_def new_session_def)
  from short_death_step [OF l t] have d: "relay_died (demo_dies t h) s"
    and c: "fst (tick (demo_dies t h) s) = Continue"
    and i: "idle_at (Suc h) (snd (tick (demo_dies t h) s))"
    and ct: "crash_times (snd (tick (demo_dies t h) s)) = [t]"
    by simp_all
  from r n d c i ct show ?thesis
    by (cases "tick (demo_dies t h) s") simp
qed

lemma step_restart:
  "live_with h t0 cts s \<Longrightarrow> 120 \<le> t - t0 \<Longrightarrow> length (filter (\<lambda>x. t - x < 600) cts) < 2 \<Longrightarrow>
     while_running (demo_dies t h # es) s = while_running es (snd (tick (demo_dies t h) s)) \<and>
     recorded (demo_dies t h # es) s acc = recorded es (snd (tick (demo_dies t h) s)) (acc @ [t]) \<and>
     failures (demo_dies t h # es) s = t # failures es (snd (tick (demo_dies t h) s)) \<and>
     live_with (Suc h) t0 (record_crash t cts) (snd (tick (demo_dies t h) s))"
proof -
  assume l: "live_with h t0 cts s" and t: "120 \<le> t - t0"
    "length (filter (\<lambda>x. t - x < 600) cts) < 2"
  from l have r: "running s" and n: "\<not> new_session (demo_dies t h) s"
    by (simp_all add: live_with_def new_session_def)
  from crash_restart_step [OF l t] have d: "relay_died (demo_dies t h) s"
    and c: "fst (tick (demo_dies t h) s) = Continue"
    and i: "live_with (Suc h) t0 (record_crash t cts) (snd (tick (demo_dies t h) s))"
    by simp_all
  from r n d c i show ?thesis
    by (cases "tick (demo_dies t h) s") simp
qed

lemma run_end:
  "running s \<Longrightarrow> while_running [] s = (Pending, s) \<and> recorded [] s acc = acc \<and> failures [] s = []"
  by simp

lemma clock_set_back_run:
  "failures clock_set_back demo_start = [200, 900, 300] \<and>
   recorded clock_set_back demo_start [] = [200, 900, 300] \<and>
   crash_times (snd (while_running clock_set_back demo_start)) = [900, 300] \<and>
   recorded (take 3 clock_set_back) demo_start [] = [200, 900] \<and>
   crash_times (snd (while_running (take 3 clock_set_back) demo_start)) = [900]"
proof -
  define s1 where "s1 = snd (tick (demo_env 10) demo_start)"
  define s2 where "s2 = snd (tick (demo_dies 200 0) s1)"
  define s3 where "s3 = snd (tick (demo_dies 900 1) s2)"
  define s4 where "s4 = snd (tick (demo_dies 300 2) s3)"
  note a1 = step_new [OF demo_start_idle, of 10, folded s1_def]
  from a1 have l1: "live_with 0 10 [] s1" by simp
  note a2 = step_restart [OF l1, of 200, folded s2_def]
  from a2 have l2: "live_with 1 10 [200] s2"
    by (simp add: record_crash_def)
  note a3 = step_restart [OF l2, of 900, folded s3_def]
  from a3 have l3: "live_with 2 10 [900] s3"
    by (simp add: record_crash_def CRASH_WINDOW_def numeral_2_eq_2)
  note a4 = step_restart [OF l3, of 300, folded s4_def]
  from a4 have l4: "live_with 3 10 [900, 300] s4"
    by (simp add: record_crash_def CRASH_WINDOW_def numeral_2_eq_2 numeral_3_eq_3)
  from l3 l4 have r: "running s3" "running s4" "crash_times s3 = [900]" "crash_times s4 = [900, 300]"
    by (simp_all add: live_with_def)
  from a1 a2 a3 a4 r show ?thesis
    by (simp add: clock_set_back_def)
qed

lemma short_sessions_run:
  "failures short_sessions demo_start = [1060, 1150, 1240] \<and>
   recorded short_sessions demo_start [] = [1240] \<and>
   crash_times (snd (while_running short_sessions demo_start)) = [1240]"
proof -
  define s1 where "s1 = snd (tick (demo_env 1000) demo_start)"
  define s2 where "s2 = snd (tick (demo_dies 1060 0) s1)"
  define s3 where "s3 = snd (tick (demo_env 1090) s2)"
  define s4 where "s4 = snd (tick (demo_dies 1150 1) s3)"
  define s5 where "s5 = snd (tick (demo_env 1180) s4)"
  define s6 where "s6 = snd (tick (demo_dies 1240 2) s5)"
  note a1 = step_new [OF demo_start_idle, of 1000, folded s1_def]
  from a1 have l1: "live_with 0 1000 [] s1" by simp
  note a2 = step_short [OF l1, of 1060, folded s2_def]
  from a2 have l2: "idle_at 1 s2" by simp
  note a3 = step_new [OF l2, of 1090, folded s3_def]
  from a3 have l3: "live_with 1 1090 [] s3" by simp
  note a4 = step_short [OF l3, of 1150, folded s4_def]
  from a4 have l4: "idle_at 2 s4" by (simp add: numeral_2_eq_2)
  note a5 = step_new [OF l4, of 1180, folded s5_def]
  from a5 have l5: "live_with 2 1180 [] s5" by simp
  note a6 = step_short [OF l5, of 1240, folded s6_def]
  from a6 have l6: "running s6" "crash_times s6 = [1240]"
    by (simp_all add: idle_at_def)
  from a1 a2 a3 a4 a5 a6 l6 show ?thesis
    by (simp add: short_sessions_def)
qed

lemma relay_inv_frame [simp]:
  "relay_inv (s\<lparr>effects := a\<rparr>) = relay_inv s"
  "relay_inv (s\<lparr>logs := b\<rparr>) = relay_inv s"
  "relay_inv (s\<lparr>running := c\<rparr>) = relay_inv s"
  "relay_inv (s\<lparr>start_time := d\<rparr>) = relay_inv s"
  "relay_inv (s\<lparr>restarts := f\<rparr>) = relay_inv s"
  "relay_inv (s\<lparr>crash_times := g\<rparr>) = relay_inv s"
  "relay_inv (s\<lparr>stream_start_time := i\<rparr>) = relay_inv s"
  "relay_inv (s\<lparr>next_proc := j\<rparr>) = relay_inv s"
  "relay_inv (s\<lparr>config := k\<rparr>) = relay_inv s"
  by (simp_all add: relay_inv_def)


















subsection \<open>Claims\<close>

text \<open>
  C10. \<^verbatim>\<open>start_ffmpeg\<close> hands a command to \<^verbatim>\<open>Popen\<close> only when the configured key is
  not empty, and the command then ends with the ingest address followed by that key. With
  an empty key it logs the message about the missing key, creates no process, clears the
  running flag and returns \<^verbatim>\<open>False\<close>.
\<close>

theorem no_launch_without_key:
  "launch_cmds (effects (snd (start_ffmpeg e u s))) =
     launch_cmds (effects s) @
       (if yt_key (config s) = [] then [] else [build_cmd u (yt_key (config s))]) \<and>
   last (build_cmd u k) = YT_RTMP @ k \<and>
   (yt_key (config s) = [] \<longrightarrow>
      fst (start_ffmpeg e u s) = Returned False \<and>
      alive (snd (start_ffmpeg e u s)) = alive s \<and>
      procs (snd (start_ffmpeg e u s)) = procs s \<and>
      next_proc (snd (start_ffmpeg e u s)) = next_proc s \<and>
      \<not> running (snd (start_ffmpeg e u s)) \<and>
      logs (snd (start_ffmpeg e u s)) =
        logs (log_msg e (''No YouTube key set '' @ emdash @ '' open Settings first'') ''red'' s))"
  by (simp add: start_ffmpeg_obs start_ffmpeg_fst start_ffmpeg_not_spawned start_ffmpeg_running
        build_cmd_def)
     (simp add: start_ffmpeg_def Let_def log_msg_shape)

theorem no_launch_without_key_witness:
  "fst (start_ffmpeg (demo_env 0) ''http://u'' (initial \<lparr>kick_url = ''https://kick.com/demo'', yt_key = []\<rparr>))
     = Returned False \<and>
   launch_cmds (effects (snd (start_ffmpeg (demo_env 0) ''http://u''
      (initial \<lparr>kick_url = ''https://kick.com/demo'', yt_key = []\<rparr>)))) = [] \<and>
   alive (snd (start_ffmpeg (demo_env 0) ''http://u''
      (initial \<lparr>kick_url = ''https://kick.com/demo'', yt_key = []\<rparr>))) = {}"
  using no_launch_without_key [of "demo_env 0" "''http://u''"
      "initial \<lparr>kick_url = ''https://kick.com/demo'', yt_key = []\<rparr>" "[]"]
  by (simp add: initial_def)

text \<open>
  C2 (as amended). When the loop finds the relay dead and the ledger, pruned to the last
  600 seconds, already holds two crashes, this third crash ends the loop: the iteration
  leaves by \<^verbatim>\<open>return\<close>, no entry of \<^verbatim>\<open>procs\<close> is left and none of the processes it
  tracked is alive, the live flag and the running flag are false, nothing is probed or
  launched, and the loop takes no further iteration whatever the surroundings offer. (The
  ledger is emptied by \<^verbatim>\<open>API.start\<close> and whenever a new session begins.)
\<close>

theorem crash_storm_halts:
  "running s \<Longrightarrow> relay_died e s \<Longrightarrow>
   2 \<le> length (filter (\<lambda>t. now1 e - t < CRASH_WINDOW) (crash_times s)) \<Longrightarrow>
     while_running (e # es) s = (Exited, snd (tick e s)) \<and>
     fst (tick e s) = Return \<and>
     \<not> is_live (snd (tick e s)) \<and>
     \<not> running (snd (tick e s)) \<and>
     procs (snd (tick e s)) = [] \<and>
     alive (snd (tick e s)) \<inter> snd ` set (procs s) = {} \<and>
     probes (effects (snd (tick e s))) = probes (effects s) \<and>
     launch_cmds (effects (snd (tick e s))) = launch_cmds (effects s)"
proof -
  assume run: "running s" and died: "relay_died e s"
    and two: "2 \<le> length (filter (\<lambda>t. now1 e - t < CRASH_WINDOW) (crash_times s))"
  from two have storm: "crash_storm e (children_exit e s)"
    by (simp add: crash_storm_def record_crash_def MAX_RESTARTS_def)
  have t: "tick e s = relay_dead e (children_exit e s)"
    by (rule tick_dead [OF died])
  note r = relay_dead_storm [OF storm]
  from r have ret: "fst (tick e s) = Return"
    by (simp add: t)
  then have "while_running (e # es) s = (Exited, snd (tick e s))"
    using run by (cases "tick e s") simp
  moreover have "alive (snd (tick e s)) \<inter> snd ` set (procs s) = {}"
    using r by (auto simp add: t)
  ultimately show ?thesis
    using r ret by (simp add: t)
qed

theorem crash_storm_halts_witness:
  "while_running [(demo_env 1600)\<lparr>exited := [2]\<rparr>, demo_env 1700] demo_storm
     = (Exited, snd (tick ((demo_env 1600)\<lparr>exited := [2]\<rparr>) demo_storm)) \<and>
   \<not> is_live (snd (tick ((demo_env 1600)\<lparr>exited := [2]\<rparr>) demo_storm)) \<and>
   \<not> running (snd (tick ((demo_env 1600)\<lparr>exited := [2]\<rparr>) demo_storm)) \<and>
   procs (snd (tick ((demo_env 1600)\<lparr>exited := [2]\<rparr>) demo_storm)) = [] \<and>
   launch_cmds (effects (snd (tick ((demo_env 1600)\<lparr>exited := [2]\<rparr>) demo_storm))) = []"
proof -
  have a: "running demo_storm"
    by (simp add: demo_storm_def demo_live_def)
  have b: "relay_died ((demo_env 1600)\<lparr>exited := [2]\<rparr>) demo_storm"
    by (simp add: relay_died_def demo_storm_def demo_live_def)
  have c: "2 \<le> length (filter (\<lambda>t. now1 ((demo_env 1600)\<lparr>exited := [2]\<rparr>) - t < CRASH_WINDOW)
      (crash_times demo_storm))"
    by (simp add: demo_storm_def demo_live_def demo_env_def CRASH_WINDOW_def)
  from crash_storm_halts [OF a b c, of "[demo_env 1700]"] show ?thesis
    by (simp add: demo_storm_def demo_live_def initial_def)
qed

text \<open>
  C4. When the loop finds the relay dead, the crash does not fill the ledger, and the
  second clock reading is less than \<open>MIN_STREAM_DURATION\<close> seconds after the start of the
  session (\<^verbatim>\<open>stream_start_time\<close>, a clock reading other than 0.0, which Python takes for
  false), the iteration stops the relay, clears the live flag, leaves the counter of
  restarts and the running flag as they are, probes nothing, launches nothing, sleeps
  \<open>OFFLINE_CHECK\<close> seconds as its last action and goes back to the test of the loop.
\<close>

theorem short_session_goes_offline:
  "relay_died e s \<Longrightarrow> \<not> crash_storm e s \<Longrightarrow>
   stream_start_time s = Some t0 \<Longrightarrow> t0 \<noteq> 0 \<Longrightarrow> now2 e - t0 < MIN_STREAM_DURATION \<Longrightarrow>
     fst (tick e s) = Continue \<and>
     \<not> is_live (snd (tick e s)) \<and>
     restarts (snd (tick e s)) = restarts s \<and>
     running (snd (tick e s)) = running s \<and>
     procs (snd (tick e s)) = [] \<and>
     alive (snd (tick e s)) \<inter> snd ` set (procs s) = {} \<and>
     probes (effects (snd (tick e s))) = probes (effects s) \<and>
     launch_cmds (effects (snd (tick e s))) = launch_cmds (effects s) \<and>
     sleeps (effects (snd (tick e s))) = sleeps (effects s) @ [OFFLINE_CHECK] \<and>
     last (effects (snd (tick e s))) = Sleep OFFLINE_CHECK"
proof -
  assume died: "relay_died e s" and calm: "\<not> crash_storm e s"
    and t0: "stream_start_time s = Some t0" "t0 \<noteq> 0" "now2 e - t0 < MIN_STREAM_DURATION"
  from t0 have short: "short_session e (children_exit e s)"
    by (simp add: short_session_def)
  from calm have calm': "\<not> crash_storm e (children_exit e s)"
    by simp
  have t: "tick e s = relay_dead e (children_exit e s)"
    by (rule tick_dead [OF died])
  note r = relay_dead_short [OF calm' short]
  have "alive (snd (tick e s)) \<inter> snd ` set (procs s) = {}"
    using r by (auto simp add: t)
  moreover have "restarts (snd (tick e s)) = restarts s"
    using calm' short by (simp add: t relay_dead_restarts)
  ultimately show ?thesis
    using r by (simp add: t)
qed

theorem short_session_goes_offline_witness:
  "fst (tick ((demo_env 1060)\<lparr>exited := [0]\<rparr>) (demo_live 1000 0)) = Continue \<and>
   \<not> is_live (snd (tick ((demo_env 1060)\<lparr>exited := [0]\<rparr>) (demo_live 1000 0))) \<and>
   restarts (snd (tick ((demo_env 1060)\<lparr>exited := [0]\<rparr>) (demo_live 1000 0))) = 0 \<and>
   probes (effects (snd (tick ((demo_env 1060)\<lparr>exited := [0]\<rparr>) (demo_live 1000 0)))) = [] \<and>
   launch_cmds (effects (snd (tick ((demo_env 1060)\<lparr>exited := [0]\<rparr>) (demo_live 1000 0)))) = [] \<and>
   sleeps (effects (snd (tick ((demo_env 1060)\<lparr>exited := [0]\<rparr>) (demo_live 1000 0)))) = [30]"
proof -
  have a: "relay_died ((demo_env 1060)\<lparr>exited := [0]\<rparr>) (demo_live 1000 0)"
    by (simp add: relay_died_def demo_live_def)
  have b: "\<not> crash_storm ((demo_env 1060)\<lparr>exited := [0]\<rparr>) (demo_live 1000 0)"
    by (simp add: crash_storm_def record_crash_def demo_live_def initial_def MAX_RESTARTS_def)
  have c: "stream_start_time (demo_live 1000 0) = Some 1000"
    by (simp add: demo_live_def)
  have d: "now2 ((demo_env 1060)\<lparr>exited := [0]\<rparr>) - 1000 < MIN_STREAM_DURATION"
    by (simp add: demo_env_def MIN_STREAM_DURATION_def)
  from short_session_goes_offline [OF a b c _ d] show ?thesis
    by (simp add: demo_live_def initial_def OFFLINE_CHECK_def)
qed

text \<open>
  C2 as stated fails. A session begins at 1000 and its relay dies at 1060; the next session
  begins at 1090 and its relay dies at 1150; the third begins at 1180 and its relay dies
  at 1240. Three crashes are recorded within 600 seconds and no session reached
  \<open>MIN_STREAM_DURATION\<close>, yet after the third crash the loop is still running and the ledger
  holds one entry: each new session emptied it (line 197).
\<close>

theorem three_short_sessions_counterexample:
  "relay_died (demo_dies 1060 0) (snd (while_running (take 1 short_sessions) demo_start)) \<and>
   relay_died (demo_dies 1150 1) (snd (while_running (take 3 short_sessions) demo_start)) \<and>
   relay_died (demo_dies 1240 2) (snd (while_running (take 5 short_sessions) demo_start)) \<and>
   fst (while_running short_sessions demo_start) = Pending \<and>
   running (snd (while_running short_sessions demo_start)) \<and>
   crash_times (snd (while_running short_sessions demo_start)) = [1240]"
proof -
  define s1 where "s1 = snd (tick (demo_env 1000) demo_start)"
  define s2 where "s2 = snd (tick (demo_dies 1060 0) s1)"
  define s3 where "s3 = snd (tick (demo_env 1090) s2)"
  define s4 where "s4 = snd (tick (demo_dies 1150 1) s3)"
  define s5 where "s5 = snd (tick (demo_env 1180) s4)"
  define s6 where "s6 = snd (tick (demo_dies 1240 2) s5)"
  have run0: "running demo_start"
    using demo_start_idle by (simp add: idle_at_def)
  have c1: "fst (tick (demo_env 1000) demo_start) = Continue" and l1: "live_with 0 1000 [] s1"
    using idle_step [OF demo_start_idle, of 1000] by (simp_all add: s1_def)
  have d2: "relay_died (demo_dies 1060 0) s1" and c2: "fst (tick (demo_dies 1060 0) s1) = Continue"
    and i2: "idle_at 1 s2"
    using short_death_step [OF l1, of 1060] by (simp_all add: s2_def)
  have c3: "fst (tick (demo_env 1090) s2) = Continue" and l3: "live_with 1 1090 [] s3"
    using idle_step [OF i2, of 1090] by (simp_all add: s3_def)
  have d4: "relay_died (demo_dies 1150 1) s3" and c4: "fst (tick (demo_dies 1150 1) s3) = Continue"
    and i4: "idle_at 2 s4"
    using short_death_step [OF l3, of 1150] by (simp_all add: s4_def numeral_2_eq_2)
  have c5: "fst (tick (demo_env 1180) s4) = Continue" and l5: "live_with 2 1180 [] s5"
    using idle_step [OF i4, of 1180] by (simp_all add: s5_def numeral_2_eq_2)
  have d6: "relay_died (demo_dies 1240 2) s5" and c6: "fst (tick (demo_dies 1240 2) s5) = Continue"
    and i6: "idle_at 3 s6" and ct6: "crash_times s6 = [1240]"
    using short_death_step [OF l5, of 1240] by (simp_all add: s6_def numeral_2_eq_2 numeral_3_eq_3)
  have w1: "while_running [demo_env 1000] demo_start = (Pending, s1)"
    using while_running_single [OF run0 c1] l1 by (simp add: s1_def live_with_def)
  have w2: "while_running ([demo_env 1000] @ [demo_dies 1060 0]) demo_start = (Pending, s2)"
    using while_running_snoc [OF w1 c2] i2 by (simp add: s2_def idle_at_def)
  have w3: "while_running (([demo_env 1000] @ [demo_dies 1060 0]) @ [demo_env 1090]) demo_start
      = (Pending, s3)"
    using while_running_snoc [OF w2 c3] l3 by (simp add: s3_def live_with_def)
  have w4: "while_running ((([demo_env 1000] @ [demo_dies 1060 0]) @ [demo_env 1090])
      @ [demo_dies 1150 1]) demo_start = (Pending, s4)"
    using while_running_snoc [OF w3 c4] i4 by (simp add: s4_def idle_at_def)
  have w5: "while_running (((([demo_env 1000] @ [demo_dies 1060 0]) @ [demo_env 1090])
      @ [demo_dies 1150 1]) @ [demo_env 1180]) demo_start = (Pending, s5)"
    using while_running_snoc [OF w4 c5] l5 by (simp add: s5_def live_with_def)
  have w6: "while_running ((((([demo_env 1000] @ [demo_dies 1060 0]) @ [demo_env 1090])
      @ [demo_dies 1150 1]) @ [demo_env 1180]) @ [demo_dies 1240 2]) demo_start = (Pending, s6)"
    using while_running_snoc [OF w5 c6] i6 by (simp add: s6_def idle_at_def)
  from w1 w3 w5 w6 d2 d4 d6 i6 ct6 show ?thesis
    by (simp add: short_sessions_def idle_at_def)
qed

text \<open>
  C5 (as amended). An iteration of the loop sets \<^verbatim>\<open>start_time\<close> to the first clock
  reading exactly when it begins a new session (the probe succeeds while the session is
  not live), clears it exactly when it finds the session live with no relay tracked and
  the probe failing, and leaves it as it is otherwise. In particular, while a relay is
  tracked (the cases in which the loop relaunches the relay, for a fresh URL or after a
  crash) \<^verbatim>\<open>start_time\<close> does not change.
\<close>

theorem start_time_only_at_new_session:
  "start_time (snd (tick e s)) =
     (if new_session e s then Some (now1 e)
      else if session_ended e s then None else start_time s) \<and>
   (relay_tracked s \<longrightarrow> start_time (snd (tick e s)) = start_time s)"
proof (cases e s rule: tick_cases)
  case (alive p)
  then show ?thesis
    by (simp add: relay_alive_same new_session_def session_ended_def)
next
  case dead
  then have "is_live s" "map_of (procs s) ''ffmpeg'' \<noteq> None"
    by (simp_all add: relay_tracked_def)
  with dead show ?thesis
    by (auto simp add: relay_dead_same new_session_def session_ended_def)
next
  case check
  then show ?thesis
    by (auto simp add: check_kick_fields) (auto simp add: new_session_def session_ended_def relay_tracked_def)
qed

theorem start_time_only_at_new_session_witness:
  "start_time (snd (tick (demo_env 1540) (demo_live 1000 0))) = Some 1000 \<and>
   alive (snd (tick (demo_env 1540) (demo_live 1000 0))) = {1} \<and>
   signals (effects (snd (tick (demo_env 1540) (demo_live 1000 0)))) = [Terminate 0]"
proof -
  have rt: "relay_tracked (demo_live 1000 0)"
    by (simp add: relay_tracked_def demo_live_def)
  have st: "start_time (demo_live 1000 0) = Some 1000" and ef: "effects (demo_live 1000 0) = []"
    by (simp_all add: demo_live_def initial_def)
  have "start_time (snd (tick (demo_env 1540) (demo_live 1000 0))) = start_time (demo_live 1000 0)"
    using start_time_only_at_new_session [of "demo_env 1540" "demo_live 1000 0"] rt by blast
  with st have "start_time (snd (tick (demo_env 1540) (demo_live 1000 0))) = Some 1000"
    by simp
  then show ?thesis
    using refresh_step [OF demo_live_with st, of 1540] ef
    by (simp add: live_with_def py_int_def)
qed

text \<open>
  C5 as stated fails. A session is live since 1000; at 1300 the loop finds the relay dead
  and relaunches it (a second process is alive, a command went to \<^verbatim>\<open>Popen\<close>), and
  \<^verbatim>\<open>start_time\<close> is still 1000.
\<close>

theorem relaunch_keeps_start_time_counterexample:
  "alive (snd (tick (demo_dies 1300 0) (demo_live 1000 0))) = {1} \<and>
   launch_cmds (effects (snd (tick (demo_dies 1300 0) (demo_live 1000 0))))
     = [build_cmd ''https://cdn.example/live.m3u8'' ''abcd-1234''] \<and>
   now1 (demo_dies 1300 0) = 1300 \<and>
   start_time (snd (tick (demo_dies 1300 0) (demo_live 1000 0))) = Some 1000"
proof -
  have "start_time (snd (tick (demo_dies 1300 0) (demo_live 1000 0))) = Some 1000"
    using tick_dead [of "demo_dies 1300 0" "demo_live 1000 0"]
    by (simp add: relay_died_def relay_dead_same demo_live_def)
  moreover have "effects (demo_live 1000 0) = []"
    by (simp add: demo_live_def initial_def)
  moreover have "live_with (Suc 0) 1000 (record_crash 1300 [])
        (snd (tick (demo_dies 1300 0) (demo_live 1000 0))) \<and>
      launch_cmds (effects (snd (tick (demo_dies 1300 0) (demo_live 1000 0)))) =
        launch_cmds (effects (demo_live 1000 0)) @
          [build_cmd ''https://cdn.example/live.m3u8'' (yt_key demo_config)]"
    using crash_restart_step [OF demo_live_with [of 0 1000], of 1300] by simp
  ultimately show ?thesis
    by (simp add: live_with_def demo_config_def)
qed

text \<open>
  C3 (as amended). When an iteration of the running loop hands a command to \<^verbatim>\<open>Popen\<close>
  and the relay binary is missing (\<^verbatim>\<open>FileNotFoundError\<close>), no exception leaves
  \<^verbatim>\<open>start_ffmpeg\<close>: it returns \<^verbatim>\<open>False\<close> after logging the red message that ffmpeg was
  not found, and no process is created. It also clears the running flag, so the loop ends
  at its next test: the loop exits and does not poll again.
\<close>

theorem missing_relay_ends_loop:
  "running s \<Longrightarrow> yt_key (config s) \<noteq> [] \<Longrightarrow> launch e = FileNotFound \<Longrightarrow>
   launch_cmds (effects (snd (tick e s))) \<noteq> launch_cmds (effects s) \<Longrightarrow>
     fst (tick e s) = Continue \<and>
     \<not> running (snd (tick e s)) \<and>
     next_proc (snd (tick e s)) = next_proc s \<and>
     while_running (e # es) s = (Exited, snd (tick e s)) \<and>
     fst (start_ffmpeg e u s) = Returned False \<and>
     last (logs (snd (start_ffmpeg e u s))) =
       \<lparr>le_time = stamp e, le_msg = ''FFmpeg not found! Install it and add to PATH.'',
        le_level = ''red''\<rparr>"
proof -
  assume run: "running s" and k: "yt_key (config s) \<noteq> []" and l: "launch e = FileNotFound"
    and c: "launch_cmds (effects (snd (tick e s))) \<noteq> launch_cmds (effects s)"
  from k have k': "yt_key (config (children_exit e s)) \<noteq> []"
    by simp
  have body: "fst (tick e s) = Continue \<and> \<not> running (snd (tick e s)) \<and>
      next_proc (snd (tick e s)) = next_proc s"
  proof (cases e s rule: tick_cases)
    case (alive p)
    with c relay_alive_missing [OF k' l] show ?thesis by simp
  next
    case dead
    with c relay_dead_missing [OF k' l] show ?thesis by simp
  next
    case check
    with c check_kick_missing [OF k' l] show ?thesis by simp
  qed
  then have "while_running (e # es) s = (Exited, snd (tick e s))"
    using run by (cases "tick e s") (simp add: while_running_stopped)
  with body start_ffmpeg_missing [OF k l, of u] show ?thesis
    by simp
qed

theorem missing_relay_ends_loop_witness:
  "while_running [demo_missing 1000, demo_env 1030] demo_start
     = (Exited, snd (tick (demo_missing 1000) demo_start)) \<and>
   \<not> running (snd (tick (demo_missing 1000) demo_start)) \<and>
   next_proc (snd (tick (demo_missing 1000) demo_start)) = 0 \<and>
   fst (start_ffmpeg (demo_missing 1000) ''https://cdn.example/live.m3u8'' demo_start)
     = Returned False"
proof -
  have "launch_cmds (effects (snd (tick (demo_missing 1000) demo_start)))
      \<noteq> launch_cmds (effects demo_start)"
    using idle_missing_step [OF demo_start_idle, of 1000] by simp
  from missing_relay_ends_loop [OF _ _ _ this, of "[demo_env 1030]" "''https://cdn.example/live.m3u8''"]
  show ?thesis
    using demo_start_idle by (simp add: idle_at_def)
qed

text \<open>
  C3 as stated fails. The loop is started with both settings present; the first probe
  finds the channel live and the relay binary is missing. The loop exits (it does not
  stay pending although two more iterations are offered), and it has probed once.
\<close>

theorem missing_relay_counterexample:
  "fst (stream_loop (demo_env 990) [demo_missing 1000, demo_env 1030, demo_env 1060] demo_start)
     = Exited \<and>
   \<not> running (snd (stream_loop (demo_env 990) [demo_missing 1000, demo_env 1030, demo_env 1060]
      demo_start)) \<and>
   probes (effects (snd (stream_loop (demo_env 990)
      [demo_missing 1000, demo_env 1030, demo_env 1060] demo_start)))
     = [''https://kick.com/demo'']"
proof -
  let ?s0 = "demo_start\<lparr>stream_start_time := None\<rparr>"
  have idle: "idle_at 0 ?s0"
    using demo_start_idle by simp
  note st = idle_missing_step [OF idle, of 1000]
  have "while_running [demo_missing 1000, demo_env 1030, demo_env 1060] ?s0
      = while_running [demo_env 1030, demo_env 1060] (snd (tick (demo_missing 1000) ?s0))"
    using st by (intro while_running_step) simp_all
  also have "\<dots> = (Exited, snd (tick (demo_missing 1000) ?s0))"
    using st by (intro while_running_stopped) simp
  finally have "stream_loop (demo_env 990) [demo_missing 1000, demo_env 1030, demo_env 1060]
      demo_start = (Exited, snd (tick (demo_missing 1000) ?s0))"
    by (simp add: stream_loop_while)
  with st show ?thesis
    by simp
qed

text \<open>
  C8 (as amended). During the loop the counter of restarts is set to 0 exactly in the
  iteration in which the session goes from not live to live (the probe succeeds while the
  live flag is false). The reset (line 196) comes before the launch (line 198) and does
  not depend on it: the iteration hands a command to \<^verbatim>\<open>Popen\<close> only when the key is
  not empty, and a relay process exists afterwards only when \<^verbatim>\<open>Popen\<close> succeeded.
  Every other iteration leaves the counter as it is or, when it handles a crash by
  restarting, adds one; the lines before the loop leave it as it is. Outside the loop,
  \<^verbatim>\<open>API.start\<close> sets it to 0 when it starts the loop.
\<close>

theorem restarts_reset_at_live_transition:
  "restarts (snd (tick e s)) =
     (if new_session e s then 0
      else if relay_died e s \<and> \<not> crash_storm e s \<and> \<not> short_session e s then restarts s + 1
      else restarts s) \<and>
   (new_session e s \<longrightarrow>
      \<not> is_live s \<and> is_live (snd (tick e s)) \<and>
      launch_cmds (effects (snd (tick e s))) =
        launch_cmds (effects s) @
          (if yt_key (config s) = [] then []
           else [build_cmd (case hls_result e of Some u \<Rightarrow> u | None \<Rightarrow> []) (yt_key (config s))]) \<and>
      next_proc (snd (tick e s)) =
        (if yt_key (config s) \<noteq> [] \<and> launch e \<noteq> FileNotFound \<and> launch e \<noteq> OtherFailure
         then Suc (next_proc s) else next_proc s)) \<and>
   restarts (snd (stream_loop e0 [] s)) = restarts s \<and>
   restarts (snd (api_start s)) = (if running s then restarts s else 0)"
proof -
  have pre: "restarts (snd (stream_loop e0 [] s)) = restarts s"
    by (simp add: stream_loop_def Let_def log_msg_shape)
  have start: "restarts (snd (api_start s)) = (if running s then restarts s else 0)"
    by (simp add: api_start_def)
  have body: "restarts (snd (tick e s)) =
     (if new_session e s then 0
      else if relay_died e s \<and> \<not> crash_storm e s \<and> \<not> short_session e s then restarts s + 1
      else restarts s) \<and>
     (new_session e s \<longrightarrow>
      \<not> is_live s \<and> is_live (snd (tick e s)) \<and>
      launch_cmds (effects (snd (tick e s))) =
        launch_cmds (effects s) @
          (if yt_key (config s) = [] then []
           else [build_cmd (case hls_result e of Some u \<Rightarrow> u | None \<Rightarrow> []) (yt_key (config s))]) \<and>
      next_proc (snd (tick e s)) =
        (if yt_key (config s) \<noteq> [] \<and> launch e \<noteq> FileNotFound \<and> launch e \<noteq> OtherFailure
         then Suc (next_proc s) else next_proc s))"
  proof (cases e s rule: tick_cases)
    case (alive p)
    then show ?thesis
      by (simp add: relay_alive_same new_session_def)
  next
    case dead
    then have "is_live s" by (simp add: relay_died_def)
    with dead show ?thesis
      by (simp add: relay_dead_restarts new_session_def)
  next
    case check
    show ?thesis
    proof (cases "new_session e s")
      case True
      then have "new_session e (children_exit e s)"
        by simp
      from check_kick_new_session [OF this] True check show ?thesis
        by (simp add: check_kick_fields) (simp add: new_session_def)
    next
      case False
      with check show ?thesis
        by (simp add: check_kick_fields)
    qed
  qed
  from pre start body show ?thesis by simp
qed

theorem restarts_reset_at_live_transition_witness:
  "restarts (snd (tick (demo_env 1000) demo_idle)) = 0 \<and>
   is_live (snd (tick (demo_env 1000) demo_idle)) \<and>
   launch_cmds (effects (snd (tick (demo_env 1000) demo_idle)))
     = [build_cmd ''https://cdn.example/live.m3u8'' ''abcd-1234''] \<and>
   next_proc (snd (tick (demo_env 1000) demo_idle)) = 1"
  using restarts_reset_at_live_transition [of "demo_env 1000" demo_idle]
  by (simp add: new_session_def demo_idle_def initial_def demo_config_def)

text \<open>
  C8 as stated fails. The counter stands at 2 and the session is not live. With an empty
  key the probe succeeds and the iteration sets the counter to 0 although no command goes
  to \<^verbatim>\<open>Popen\<close> and no relay exists; with the relay binary missing it sets the counter
  to 0 although no relay process was created.
\<close>

theorem restarts_reset_without_launch_counterexample:
  "restarts demo_nokey = 2 \<and>
   restarts (snd (tick (demo_env 1000) demo_nokey)) = 0 \<and>
   launch_cmds (effects (snd (tick (demo_env 1000) demo_nokey))) = [] \<and>
   alive (snd (tick (demo_env 1000) demo_nokey)) = {} \<and>
   restarts demo_idle = 2 \<and>
   restarts (snd (tick (demo_missing 1000) demo_idle)) = 0 \<and>
   alive (snd (tick (demo_missing 1000) demo_idle)) = {}"
proof -
  have a: "new_session (demo_env 1000) demo_nokey" "\<not> relay_tracked demo_nokey"
    by (simp_all add: new_session_def relay_tracked_def demo_nokey_def initial_def)
  have b: "new_session (demo_missing 1000) demo_idle" "\<not> relay_tracked demo_idle"
    by (simp_all add: new_session_def relay_tracked_def demo_idle_def initial_def)
  have a': "new_session (demo_env 1000) (children_exit (demo_env 1000) demo_nokey)"
    and b': "new_session (demo_missing 1000) (children_exit (demo_missing 1000) demo_idle)"
    using a b by simp_all
  show ?thesis
    using check_kick_new_session [OF a'] check_kick_new_session [OF b']
      tick_check [OF a(2), of "demo_env 1000"] tick_check [OF b(2), of "demo_missing 1000"] a b
    by (simp add: check_kick_fields) (simp add: demo_nokey_def demo_idle_def initial_def)
qed

text \<open>
  C9. The buffer does what the claim says (lemma \<open>log_bounded\<close>), and a failure to notify
  the window is swallowed. But \<^verbatim>\<open>log\<close> can raise: \<^verbatim>\<open>print\<close> stands outside the
  \<^verbatim>\<open>try\<close>. When the standard output cannot take the line (here the message of line 192,
  which has a dash outside ASCII), the call appends the entry and then raises; in
  \<^verbatim>\<open>stream_loop\<close> nothing catches the exception.
\<close>

theorem log_print_raises:
  "log_call True (demo_env 1000) (''Kick LIVE '' @ emdash @ '' starting restream now'') ''green''
       demo_start
     = LogRaises
         (demo_start
            \<lparr>logs := [\<lparr>le_time = ''12:00:00'',
                       le_msg = ''Kick LIVE '' @ emdash @ '' starting restream now'',
                       le_level = ''green''\<rparr>]\<rparr>)"
  by (simp add: log_call_def Let_def demo_start_def api_start_def initial_def demo_env_def)

text \<open>
  C6 (as amended). Take a run of the loop that starts with an empty ledger
  (\<^verbatim>\<open>API.start\<close> empties it, and every new session empties it again), and the clock
  readings \<open>recorded es s []\<close> of the failures the run has recorded since the ledger was
  last emptied. When these readings never decrease and the query time \<open>now\<close> is not
  before them, the ledger pruned at \<open>now\<close> (line 153) holds exactly the recorded readings
  \<open>t\<close> with \<open>now - t < CRASH_WINDOW\<close>, so the count within the window is their number, and
  recording a failure at \<open>now\<close> (lines 153 and 154) leaves exactly the readings within the
  window, the new one included. The ledger never holds more than \<open>MAX_RESTARTS\<close> entries.
  Pruning is stored as a side effect and never undone: an iteration that finds the relay
  dead stores the pruned ledger with its own reading appended, an iteration that begins a
  session stores the empty ledger, any other leaves the ledger as it is; so the only entry
  a run can add to the ledger is the clock reading of one of its iterations.
\<close>

theorem crash_ledger_window:
  "crash_times s = [] \<Longrightarrow> sorted (recorded es s [] @ [now]) \<Longrightarrow>
     filter (\<lambda>t. now - t < CRASH_WINDOW) (crash_times (snd (while_running es s)))
       = filter (\<lambda>t. now - t < CRASH_WINDOW) (recorded es s []) \<and>
     length (filter (\<lambda>t. now - t < CRASH_WINDOW) (crash_times (snd (while_running es s))))
       = length (filter (\<lambda>t. now - t < CRASH_WINDOW) (recorded es s [])) \<and>
     record_crash now (crash_times (snd (while_running es s)))
       = filter (\<lambda>t. now - t < CRASH_WINDOW) (recorded es s [] @ [now]) \<and>
     length (crash_times (snd (while_running es s))) \<le> MAX_RESTARTS \<and>
     set (crash_times (snd (while_running es' s'))) \<subseteq> set (crash_times s') \<union> now1 ` set es' \<and>
     crash_times (snd (tick e s')) =
       (if new_session e s' then []
        else if relay_died e s' then record_crash (now1 e) (crash_times s')
        else crash_times s') \<and>
     crash_times (snd (api_start s')) = (if running s' then crash_times s' else [])"
proof -
  assume empty: "crash_times s = []" and srt: "sorted (recorded es s [] @ [now])"
  have run: "crash_times (snd (while_running es s)) = ledger (recorded es s [])"
    using empty by (intro run_ledger) simp
  have after: "record_crash now (crash_times (snd (while_running es s)))
      = filter (\<lambda>t. now - t < CRASH_WINDOW) (recorded es s [] @ [now])"
    using ledger_sorted [OF srt] by (simp add: run ledger_snoc)
  then have pruned: "filter (\<lambda>t. now - t < CRASH_WINDOW) (crash_times (snd (while_running es s)))
      = filter (\<lambda>t. now - t < CRASH_WINDOW) (recorded es s [])"
    by (simp add: record_crash_def CRASH_WINDOW_def)
  have bound: "length (crash_times (snd (while_running es s))) \<le> MAX_RESTARTS"
    using empty by (intro run_ledger_bound) (simp add: MAX_RESTARTS_def)
  have start: "crash_times (snd (api_start s')) = (if running s' then crash_times s' else [])"
    by (simp add: api_start_def)
  from after pruned bound start run_entries [of es' s'] tick_crash_times [of e s'] show ?thesis
    by simp
qed

theorem crash_ledger_window_witness:
  "recorded (take 3 clock_set_back) demo_start [] = [200, 900] \<and>
   filter (\<lambda>t. 1000 - t < CRASH_WINDOW)
     (crash_times (snd (while_running (take 3 clock_set_back) demo_start))) = [900] \<and>
   record_crash 1000 (crash_times (snd (while_running (take 3 clock_set_back) demo_start)))
     = [900, 1000]"
proof -
  have r: "recorded (take 3 clock_set_back) demo_start [] = [200, 900]"
    using clock_set_back_run by simp
  have e: "crash_times demo_start = []"
    by (simp add: demo_start_def api_start_def initial_def)
  have s: "sorted (recorded (take 3 clock_set_back) demo_start [] @ [1000])"
    by (simp add: r)
  from crash_ledger_window [OF e s, of "[]" demo_start "demo_env 0"] r show ?thesis
    by (simp add: CRASH_WINDOW_def)
qed

text \<open>
  C6 as stated fails, twice. When the clock is set back between two failures: failures
  are recorded at 200, 900 and 300 in one session; all three readings lie within 600
  seconds of the last one, and the ledger holds two entries. When sessions end and begin:
  failures are recorded at 1060, 1150 and 1240 in three short sessions; all three lie
  within 600 seconds of the last one, and the ledger holds one entry.
\<close>

theorem crash_ledger_counterexample:
  "failures clock_set_back demo_start = [200, 900, 300] \<and>
   length (filter (\<lambda>t. 300 - t < CRASH_WINDOW) [200, 900, 300]) = 3 \<and>
   crash_times (snd (while_running clock_set_back demo_start)) = [900, 300] \<and>
   failures short_sessions demo_start = [1060, 1150, 1240] \<and>
   length (filter (\<lambda>t. 1240 - t < CRASH_WINDOW) [1060, 1150, 1240]) = 3 \<and>
   crash_times (snd (while_running short_sessions demo_start)) = [1240]"
  using clock_set_back_run short_sessions_run
  by (simp add: CRASH_WINDOW_def)







end
